theory Spec2Isabelle
  imports Complex_Main "HOL-Library.AList"
begin

section \<open>Data model\<close>

text \<open>
  The Python exceptions the pipeline raises or lets through.  A pydantic
  \<open>ValidationError\<close> carries the errors of the validators that failed.
\<close>

datatype error =
    ValueError
  | TypeError
  | KeyError
  | AttributeError
  | ZeroDivisionError
  | NotImplementedError
  | ValidationError "error list"

text \<open>
  A pandas column has a dtype and a list of cells.  \<open>NA\<close> is the missing
  value (\<open>NaN\<close>, \<open>None\<close>, \<open>NaT\<close>).  Floating-point cells are idealised:
  a finite float is a real number, with the two infinities beside it.
\<close>

datatype dtype =
    Int8 | Int16 | Int32 | Int64
  | UInt8 | UInt16 | UInt32 | UInt64
  | Float32 | Float64
  | BoolT | Object | Category | Datetime64

datatype cell =
    NA
  | IntC int
  | FloatC real
  | PosInf
  | NegInf
  | StrC string
  | BoolC bool
  | DateC nat nat nat

record series =
  dtype :: dtype
  cells :: "cell list"

text \<open>
  A DataFrame is its columns in order, each under its label.  \<open>X[col] = s\<close>
  replaces the column of that label where it stands, or appends a new one.
\<close>

type_synonym frame = "(string \<times> series) list"

definition columns :: "frame \<Rightarrow> string list" where
  "columns X = map fst X"

definition len :: "frame \<Rightarrow> nat" where
  "len X = (case X of [] \<Rightarrow> 0 | (c, s) # rest \<Rightarrow> length (cells s))"

definition setitem :: "frame \<Rightarrow> string \<Rightarrow> series \<Rightarrow> frame" where
  "setitem X col s = AList.update col s X"

definition getitem :: "frame \<Rightarrow> string \<Rightarrow> error + series" where
  "getitem X col = (case map_of X col of None \<Rightarrow> Inl KeyError | Some s \<Rightarrow> Inr s)"

text \<open>
  A frame as the readers produce it: distinct labels, and columns of one
  length.
\<close>

definition wf_frame :: "frame \<Rightarrow> bool" where
  "wf_frame X \<longleftrightarrow>
     distinct (columns X) \<and> list_all (\<lambda>(c, s). length (cells s) = len X) X"

text \<open>An argument of \<open>fit\<close> or \<open>transform\<close>: a DataFrame, or any other object.\<close>

datatype pyobj = DataFrame frame | NotDataFrame


section \<open>DataConfig\<close>

text \<open>
  \<open>DataConfig\<close> with its two validators.  The file system is the predicate
  \<open>exists\<close> on paths.  Constructing the model runs the validator of each
  field, in the order of the fields, and raises one \<open>ValidationError\<close> holding
  the errors of those that failed.  The model is constructed as \<open>load_data\<close>
  does, from a path and a file type, the other fields taking their defaults.
  The field \<open>columns\<close> is written \<open>usecols\<close>, apart from the columns of a
  frame.
\<close>

record DataConfig =
  file_path :: string
  file_type :: string
  encoding :: string
  delimiter :: string
  skip_rows :: int
  max_rows :: "int option"
  usecols :: "string list option"

definition allowed_types :: "string list" where
  "allowed_types = [''csv'', ''json'', ''parquet'', ''excel'']"

definition validate_file_type :: "string \<Rightarrow> error + string" where
  "validate_file_type v =
     (if v \<notin> set allowed_types then Inl ValueError else Inr v)"

definition validate_file_exists :: "(string \<Rightarrow> bool) \<Rightarrow> string \<Rightarrow> error + string" where
  "validate_file_exists exists v =
     (if \<not> exists v then Inl ValueError else Inr v)"

definition new_DataConfig ::
  "(string \<Rightarrow> bool) \<Rightarrow> string \<Rightarrow> string \<Rightarrow> error + DataConfig" where
  "new_DataConfig exists p t =
     (case (validate_file_exists exists p, validate_file_type t) of
        (Inr p', Inr t') \<Rightarrow>
          Inr \<lparr>file_path = p', file_type = t', encoding = ''utf-8'',
               delimiter = '','', skip_rows = 0, max_rows = None, usecols = None\<rparr>
      | (Inl e1, Inr t') \<Rightarrow> Inl (ValidationError [e1])
      | (Inr p', Inl e2) \<Rightarrow> Inl (ValidationError [e2])
      | (Inl e1, Inl e2) \<Rightarrow> Inl (ValidationError [e1, e2]))"


section \<open>Objects and loops\<close>

text \<open>
  Python passes DataFrames by reference.  The store holds the objects; a
  reference is an index into it.  \<open>X.copy()\<close> allocates a new object, and a
  method that assigns columns of its argument writes to that object only.
\<close>

type_synonym ref = nat
type_synonym store = "pyobj list"

definition df_copy :: "store \<Rightarrow> frame \<Rightarrow> store \<times> ref" where
  "df_copy h X = (h @ [DataFrame X], length h)"

definition in_place ::
  "(frame \<Rightarrow> frame \<times> error option) \<Rightarrow> ref \<Rightarrow> store \<Rightarrow> store \<times> error option" where
  "in_place f a h =
     (case h ! a of
        DataFrame X \<Rightarrow> (let (X', r) = f X in (h[a := DataFrame X'], r))
      | NotDataFrame \<Rightarrow> (h, Some AttributeError))"

text \<open>
  A \<open>for\<close> loop over a list whose body updates a state and may raise: the
  loop stops at the first exception, with the state as it then is.
  \<open>for_each_states\<close> lists the state and item of every iteration the loop
  enters.
\<close>

fun for_each :: "('s \<Rightarrow> 'x \<Rightarrow> 's \<times> error option) \<Rightarrow> 'x list \<Rightarrow> 's \<Rightarrow> 's \<times> error option" where
  "for_each body [] s = (s, None)"
| "for_each body (x # xs) s =
     (case body s x of
        (s', None) \<Rightarrow> for_each body xs s'
      | (s', Some e) \<Rightarrow> (s', Some e))"

fun for_each_states :: "('s \<Rightarrow> 'x \<Rightarrow> 's \<times> error option) \<Rightarrow> 'x list \<Rightarrow> 's \<Rightarrow> ('s \<times> 'x) list" where
  "for_each_states body [] s = []"
| "for_each_states body (x # xs) s =
     (s, x) # (case body s x of
                 (s', None) \<Rightarrow> for_each_states body xs s'
               | (s', Some e) \<Rightarrow> [])"

text \<open>
  One assignment \<open>X[label] = rhs\<close>, where evaluating the right-hand side on
  the frame may raise, and the sequencing of two statements.
\<close>

definition assign :: "string \<Rightarrow> (frame \<Rightarrow> error + series) \<Rightarrow> frame \<Rightarrow> frame \<times> error option" where
  "assign label rhs X =
     (case rhs X of Inl e \<Rightarrow> (X, Some e) | Inr s \<Rightarrow> (setitem X label s, None))"

definition and_then ::
  "('s \<Rightarrow> 's \<times> error option) \<Rightarrow> ('s \<Rightarrow> 's \<times> error option) \<Rightarrow> 's \<Rightarrow> 's \<times> error option" where
  "and_then f g s = (case f s of (s', None) \<Rightarrow> g s' | (s', Some e) \<Rightarrow> (s', Some e))"

text \<open>\<open>select_dtypes\<close>, the numeric dtypes of \<open>np.number\<close>, and \<open>X[labels]\<close>.\<close>

definition select_dtypes :: "(dtype \<Rightarrow> bool) \<Rightarrow> frame \<Rightarrow> frame" where
  "select_dtypes include X = filter (\<lambda>(c, s). include (dtype s)) X"

definition is_integer :: "dtype \<Rightarrow> bool" where
  "is_integer d \<longleftrightarrow> d \<in> {Int8, Int16, Int32, Int64, UInt8, UInt16, UInt32, UInt64}"

definition is_float :: "dtype \<Rightarrow> bool" where
  "is_float d \<longleftrightarrow> d \<in> {Float32, Float64}"

definition is_number :: "dtype \<Rightarrow> bool" where
  "is_number d \<longleftrightarrow> is_integer d \<or> is_float d"

definition getitems :: "frame \<Rightarrow> string list \<Rightarrow> error + frame" where
  "getitems X labels =
     (if set labels \<subseteq> set (columns X)
      then Inr (map (\<lambda>c. (c, the (map_of X c))) labels)
      else Inl KeyError)"

definition set_columns :: "frame \<Rightarrow> string list \<Rightarrow> series list \<Rightarrow> frame \<times> error option" where
  "set_columns X labels ss =
     (if length ss \<noteq> length labels then (X, Some ValueError)
      else (fold (\<lambda>(c, s) X'. setitem X' c s) (zip labels ss) X, None))"


section \<open>ModernDataLoader\<close>

text \<open>
  The loader holds its configuration and the frame it has loaded
  (\<open>_data\<close>), \<open>None\<close> before \<open>load_pandas\<close>.
\<close>

record loader =
  config :: DataConfig
  data :: "frame option"

text \<open>
  \<open>np.iinfo\<close> of the integer dtypes, and the value an integer takes when
  \<open>astype\<close> casts it to one of them: numpy wraps around silently.
\<close>

fun iinfo_min :: "dtype \<Rightarrow> int" where
  "iinfo_min Int8 = - 128"
| "iinfo_min Int16 = - 32768"
| "iinfo_min Int32 = - 2147483648"
| "iinfo_min Int64 = - 9223372036854775808"
| "iinfo_min d = 0"

fun iinfo_max :: "dtype \<Rightarrow> int" where
  "iinfo_max Int8 = 127"
| "iinfo_max Int16 = 32767"
| "iinfo_max Int32 = 2147483647"
| "iinfo_max Int64 = 9223372036854775807"
| "iinfo_max UInt8 = 255"
| "iinfo_max UInt16 = 65535"
| "iinfo_max UInt32 = 4294967295"
| "iinfo_max UInt64 = 18446744073709551615"
| "iinfo_max d = 0"

definition wrap :: "dtype \<Rightarrow> int \<Rightarrow> int" where
  "wrap d v = (v - iinfo_min d) mod (iinfo_max d - iinfo_min d + 1) + iinfo_min d"

definition astype :: "dtype \<Rightarrow> series \<Rightarrow> series" where
  "astype d s =
     \<lparr>dtype = d,
      cells = map (\<lambda>c. case c of IntC v \<Rightarrow> IntC (wrap d v) | _ \<Rightarrow> c) (cells s)\<rparr>"

text \<open>
  \<open>Series.min()\<close> and \<open>Series.max()\<close> of an integer column: \<open>NaN\<close> (here
  \<open>None\<close>) for a column of no rows.
\<close>

definition int_values :: "series \<Rightarrow> int list" where
  "int_values s = List.map_filter (\<lambda>c. case c of IntC v \<Rightarrow> Some v | _ \<Rightarrow> None) (cells s)"

definition col_min :: "series \<Rightarrow> int option" where
  "col_min s = (if int_values s = [] then None else Some (Min (set (int_values s))))"

definition col_max :: "series \<Rightarrow> int option" where
  "col_max s = (if int_values s = [] then None else Some (Max (set (int_values s))))"

definition optimize_int_column :: "string \<Rightarrow> frame \<Rightarrow> frame" where
  "optimize_int_column col X =
     (case map_of X col of
        None \<Rightarrow> X
      | Some s \<Rightarrow>
          (case (col_min s, col_max s) of
             (Some cmin, Some cmax) \<Rightarrow>
               if cmin \<ge> 0 then
                 (if cmax < iinfo_max UInt8 then setitem X col (astype UInt8 s)
                  else if cmax < iinfo_max UInt16 then setitem X col (astype UInt16 s)
                  else if cmax < iinfo_max UInt32 then setitem X col (astype UInt32 s)
                  else X)
               else
                 (if cmin > iinfo_min Int8 \<and> cmax < iinfo_max Int8
                  then setitem X col (astype Int8 s)
                  else if cmin > iinfo_min Int16 \<and> cmax < iinfo_max Int16
                  then setitem X col (astype Int16 s)
                  else if cmin > iinfo_min Int32 \<and> cmax < iinfo_max Int32
                  then setitem X col (astype Int32 s)
                  else X)
           | _ \<Rightarrow> X))"

text \<open>
  The float columns go through \<open>pd.to_numeric(downcast='float')\<close>, which is
  pandas's: the parameter \<open>downcast_float\<close>.
\<close>

definition optimize_float_column :: "(series \<Rightarrow> series) \<Rightarrow> string \<Rightarrow> frame \<Rightarrow> frame" where
  "optimize_float_column downcast_float col X =
     (case map_of X col of None \<Rightarrow> X | Some s \<Rightarrow> setitem X col (downcast_float s))"

definition nunique :: "series \<Rightarrow> nat" where
  "nunique s = length (remdups (filter (\<lambda>c. c \<noteq> NA) (cells s)))"

definition optimize_object_column :: "frame \<Rightarrow> string \<Rightarrow> frame \<times> error option" where
  "optimize_object_column X col =
     (case map_of X col of
        None \<Rightarrow> (X, Some KeyError)
      | Some s \<Rightarrow>
          if len X = 0 then (X, Some ZeroDivisionError)
          else if real (nunique s) / real (len X) < 1 / 2
          then (setitem X col (s\<lparr>dtype := Category\<rparr>), None)
          else (X, None))"

definition optimize_dtypes :: "(series \<Rightarrow> series) \<Rightarrow> loader \<Rightarrow> loader \<times> error option" where
  "optimize_dtypes downcast_float self =
     (case data self of
        None \<Rightarrow> (self, None)
      | Some X \<Rightarrow>
          (let X1 = fold optimize_int_column (columns (select_dtypes (\<lambda>d. d = Int64) X)) X;
               X2 = fold (optimize_float_column downcast_float)
                      (columns (select_dtypes (\<lambda>d. d = Float64) X1)) X1;
               (X3, r) = for_each optimize_object_column
                           (columns (select_dtypes (\<lambda>d. d = Object) X2)) X2
           in (self\<lparr>data := Some X3\<rparr>, r)))"

text \<open>The quality report.  The memory usage is pandas's: the parameter \<open>memory\<close>.\<close>

record DataQualityReport =
  total_rows :: nat
  total_columns :: nat
  missing_values :: "(string \<times> nat) list"
  duplicate_rows :: nat
  data_types :: "(string \<times> string) list"
  memory_usage :: string
  quality_score :: real

text \<open>\<open>to_dict\<close>: a later entry of a key replaces the earlier one.\<close>

definition to_dict :: "('k \<times> 'v) list \<Rightarrow> ('k \<times> 'v) list" where
  "to_dict kvs = foldl (\<lambda>d (k, v). AList.update k v d) [] kvs"

definition isnull_sum :: "frame \<Rightarrow> (string \<times> nat) list" where
  "isnull_sum X = map (\<lambda>(c, s). (c, count_list (cells s) NA)) X"

definition rows :: "frame \<Rightarrow> cell list list" where
  "rows X = map (\<lambda>i. map (\<lambda>(c, s). cells s ! i) X) [0 ..< len X]"

text \<open>\<open>duplicated()\<close> marks every row that equals an earlier one.\<close>

fun duplicated_from :: "'a list \<Rightarrow> 'a list \<Rightarrow> bool list" where
  "duplicated_from seen [] = []"
| "duplicated_from seen (r # rs) = (r \<in> set seen) # duplicated_from (r # seen) rs"

definition duplicated :: "frame \<Rightarrow> bool list" where
  "duplicated X = duplicated_from [] (rows X)"

fun dtype_str :: "dtype \<Rightarrow> string" where
  "dtype_str Int8 = ''int8''"
| "dtype_str Int16 = ''int16''"
| "dtype_str Int32 = ''int32''"
| "dtype_str Int64 = ''int64''"
| "dtype_str UInt8 = ''uint8''"
| "dtype_str UInt16 = ''uint16''"
| "dtype_str UInt32 = ''uint32''"
| "dtype_str UInt64 = ''uint64''"
| "dtype_str Float32 = ''float32''"
| "dtype_str Float64 = ''float64''"
| "dtype_str BoolT = ''bool''"
| "dtype_str Object = ''object''"
| "dtype_str Category = ''category''"
| "dtype_str Datetime64 = ''datetime64[ns]''"

definition generate_quality_report :: "(frame \<Rightarrow> string) \<Rightarrow> loader \<Rightarrow> error + DataQualityReport" where
  "generate_quality_report memory self =
     (case data self of
        None \<Rightarrow> Inl ValueError
      | Some X \<Rightarrow>
          (let missing = to_dict (isnull_sum X);
               duplicates = length (filter id (duplicated X));
               types = to_dict (map (\<lambda>(c, s). (c, dtype_str (dtype s))) X)
           in if len X * length (columns X) = 0 then Inl ZeroDivisionError
              else
                (let ratio_missing =
                       real (sum_list (map snd missing)) / real (len X * length (columns X));
                     ratio_duplicate = real duplicates / real (len X)
                 in Inr \<lparr>total_rows = len X,
                         total_columns = length (columns X),
                         missing_values = missing,
                         duplicate_rows = duplicates,
                         data_types = types,
                         memory_usage = memory X,
                         quality_score =
                           1 - (ratio_missing * (1 / 2) + ratio_duplicate * (1 / 2))\<rparr>)))"


section \<open>TypeSafeFeatureTransformer\<close>

text \<open>
  The state of the base class (the attributes \<open>feature_names_\<close> and
  \<open>is_fitted_\<close>, written here without the trailing underscore).  The
  subclasses extend the record.
\<close>

record transformer =
  feature_names :: "string list option"
  is_fitted :: bool

definition validate_input ::
  "'a transformer_scheme \<Rightarrow> pyobj \<Rightarrow> error + frame" where
  "validate_input self X =
     (case X of
        NotDataFrame \<Rightarrow> Inl TypeError
      | DataFrame df \<Rightarrow>
          (if is_fitted self \<and> feature_names self \<noteq> None
           then (let missing_features = set (the (feature_names self)) - set (columns df)
                 in if missing_features \<noteq> {} then Inl ValueError else Inr df)
           else Inr df))"

definition fit :: "'a transformer_scheme \<Rightarrow> pyobj \<Rightarrow> error + 'a transformer_scheme" where
  "fit self X =
     (case validate_input self X of
        Inl e \<Rightarrow> Inl e
      | Inr df \<Rightarrow> Inr (self\<lparr>feature_names := Some (columns df), is_fitted := True\<rparr>))"

text \<open>
  \<open>transform\<close> receives a reference \<open>X\<close> and returns the reference that the
  subclass's \<open>_transform_impl\<close> (here \<open>impl\<close>) returns.  \<open>_validate_input\<close>
  returns its argument, so \<open>impl\<close> gets the caller's object.
\<close>

definition transform ::
  "('a transformer_scheme \<Rightarrow> ref \<Rightarrow> store \<Rightarrow> store \<times> (error + ref)) \<Rightarrow>
   'a transformer_scheme \<Rightarrow> ref \<Rightarrow> store \<Rightarrow> store \<times> (error + ref)" where
  "transform impl self X h =
     (if \<not> is_fitted self then (h, Inl ValueError)
      else case validate_input self (h ! X) of
             Inl e \<Rightarrow> (h, Inl e)
           | Inr df \<Rightarrow> impl self X h)"

definition transform_impl ::
  "'a transformer_scheme \<Rightarrow> ref \<Rightarrow> store \<Rightarrow> store \<times> (error + ref)" where
  "transform_impl self X h = (h, Inl NotImplementedError)"

definition new_transformer :: transformer where
  "new_transformer = \<lparr>feature_names = None, is_fitted = False\<rparr>"


section \<open>SmartMissingValueImputer\<close>

text \<open>
  A scikit-learn imputer is known by its constructor arguments and by the
  data it was fitted on.  What the library does with them is a parameter of
  the model: \<open>sk_fit\<close> tells whether \<open>imputer.fit\<close> raises, and
  \<open>sk_transform\<close> gives the columns \<open>imputer.transform\<close> returns.
\<close>

datatype sk_imputer = KNNImputer int | SimpleImputer string

record fitted_imputer =
  kind :: sk_imputer
  fitted_on :: frame

record imputer = transformer +
  strategy :: string
  n_neighbors :: int
  imputers :: "(string \<times> fitted_imputer) list"
  strategies :: "(string \<times> string) list"

definition new_SmartMissingValueImputer :: "string \<Rightarrow> int \<Rightarrow> imputer" where
  "new_SmartMissingValueImputer strat n =
     \<lparr>feature_names = None, is_fitted = False, strategy = strat, n_neighbors = n,
      imputers = [], strategies = []\<rparr>"

text \<open>
  \<open>X[column].isnull().mean()\<close>: the share of missing cells, \<open>NaN\<close> (here
  \<open>None\<close>) for a column of no rows.  Every comparison with \<open>NaN\<close> is false.
\<close>

definition missing_ratio :: "series \<Rightarrow> real option" where
  "missing_ratio s =
     (if cells s = [] then None
      else Some (real (count_list (cells s) NA) / real (length (cells s))))"

definition choose_strategy :: "string \<Rightarrow> series \<Rightarrow> real option \<Rightarrow> string" where
  "choose_strategy strat s ratio =
     (if strat = ''auto'' then
        (if dtype s \<in> {Object, Category} then ''most_frequent''
         else if (case ratio of None \<Rightarrow> False | Some r \<Rightarrow> r < 1 / 10) then
           (if dtype s \<in> {Float64, Int64} then ''mean'' else ''most_frequent'')
         else ''knn'')
      else strat)"

definition imputer_fit_column ::
  "(fitted_imputer \<Rightarrow> error option) \<Rightarrow> frame \<Rightarrow> imputer \<Rightarrow> string \<Rightarrow> imputer \<times> error option" where
  "imputer_fit_column sk_fit X self column =
     (case getitem X column of
        Inl e \<Rightarrow> (self, Some e)
      | Inr s \<Rightarrow>
          (let ratio = missing_ratio s in
           if ratio = Some 0 then (self, None)
           else
             (let strat = choose_strategy (strategy self) s ratio;
                  self1 = self\<lparr>strategies := AList.update column strat (strategies self)\<rparr>
              in if strat = ''knn'' then
                   (case getitems X (columns (select_dtypes is_number X)) of
                      Inl e \<Rightarrow> (self1, Some e)
                    | Inr Xn \<Rightarrow>
                        (let imp = \<lparr>kind = KNNImputer (n_neighbors self1), fitted_on = Xn\<rparr>
                         in (self1\<lparr>imputers := AList.update column imp (imputers self1)\<rparr>,
                             sk_fit imp)))
                 else
                   (case getitems X [column] of
                      Inl e \<Rightarrow> (self1, Some e)
                    | Inr Xc \<Rightarrow>
                        (let imp = \<lparr>kind = SimpleImputer strat, fitted_on = Xc\<rparr>
                         in (self1\<lparr>imputers := AList.update column imp (imputers self1)\<rparr>,
                             sk_fit imp))))))"

definition imputer_fit ::
  "(fitted_imputer \<Rightarrow> error option) \<Rightarrow> imputer \<Rightarrow> pyobj \<Rightarrow> error + imputer" where
  "imputer_fit sk_fit self X =
     (case fit self X of
        Inl e \<Rightarrow> Inl e
      | Inr self1 \<Rightarrow>
          (case X of
             NotDataFrame \<Rightarrow> Inl AttributeError
           | DataFrame df \<Rightarrow>
               (case for_each (imputer_fit_column sk_fit df) (columns df) self1 of
                  (self2, None) \<Rightarrow> Inr self2
                | (self2, Some e) \<Rightarrow> Inl e)))"

definition imputer_transform_column ::
  "(fitted_imputer \<Rightarrow> frame \<Rightarrow> error + series list) \<Rightarrow> imputer \<Rightarrow>
   frame \<Rightarrow> string \<times> fitted_imputer \<Rightarrow> frame \<times> error option" where
  "imputer_transform_column sk_transform self X item =
     (case item of (column, imp) \<Rightarrow>
        if column \<notin> set (columns X) then (X, None)
        else
          (case map_of (strategies self) column of
             None \<Rightarrow> (X, Some KeyError)
           | Some strat \<Rightarrow>
               (let labels = (if strat = ''knn'' then columns (select_dtypes is_number X)
                              else [column])
                in case getitems X labels of
                     Inl e \<Rightarrow> (X, Some e)
                   | Inr Xs \<Rightarrow>
                       (case sk_transform imp Xs of
                          Inl e \<Rightarrow> (X, Some e)
                        | Inr ss \<Rightarrow> set_columns X labels ss))))"

definition imputer_transform_impl ::
  "(fitted_imputer \<Rightarrow> frame \<Rightarrow> error + series list) \<Rightarrow>
   imputer \<Rightarrow> ref \<Rightarrow> store \<Rightarrow> store \<times> (error + ref)" where
  "imputer_transform_impl sk_transform self X h =
     (case h ! X of
        NotDataFrame \<Rightarrow> (h, Inl AttributeError)
      | DataFrame df \<Rightarrow>
          (let (h1, X_transformed) = df_copy h df;
               (h2, r) = in_place (for_each (imputer_transform_column sk_transform self)
                                     (imputers self)) X_transformed h1
           in (h2, case r of None \<Rightarrow> Inr X_transformed | Some e \<Rightarrow> Inl e)))"


section \<open>AdvancedFeatureEngineer\<close>

text \<open>
  Arithmetic on cells.  Numbers are idealised: a float is a real number or
  an infinity, with \<open>NA\<close> for \<open>NaN\<close>, and an integer product or power is the
  exact integer (rounding, and the wrap-around of a fixed-width integer, are
  left out).  Dividing a finite number by zero gives an infinity, or \<open>NaN\<close>
  for \<open>0 / 0\<close>, as numpy does under the suppressed warning.
\<close>

definition eps :: real where
  "eps = 1 / 10 ^ 8"

fun to_float :: "cell \<Rightarrow> cell" where
  "to_float (IntC n) = FloatC (real_of_int n)"
| "to_float (FloatC x) = FloatC x"
| "to_float PosInf = PosInf"
| "to_float NegInf = NegInf"
| "to_float c = NA"

definition signed_inf :: "real \<Rightarrow> cell" where
  "signed_inf x = (if x > 0 then PosInf else if x < 0 then NegInf else NA)"

fun float_mul :: "cell \<Rightarrow> cell \<Rightarrow> cell" where
  "float_mul (FloatC x) (FloatC y) = FloatC (x * y)"
| "float_mul (FloatC x) PosInf = signed_inf x"
| "float_mul (FloatC x) NegInf = signed_inf (- x)"
| "float_mul PosInf (FloatC y) = signed_inf y"
| "float_mul NegInf (FloatC y) = signed_inf (- y)"
| "float_mul PosInf PosInf = PosInf"
| "float_mul PosInf NegInf = NegInf"
| "float_mul NegInf PosInf = NegInf"
| "float_mul NegInf NegInf = PosInf"
| "float_mul a b = NA"

fun float_div :: "cell \<Rightarrow> cell \<Rightarrow> cell" where
  "float_div (FloatC x) (FloatC y) = (if y = 0 then signed_inf x else FloatC (x / y))"
| "float_div (FloatC x) PosInf = FloatC 0"
| "float_div (FloatC x) NegInf = FloatC 0"
| "float_div PosInf (FloatC y) = (if y \<ge> 0 then PosInf else NegInf)"
| "float_div NegInf (FloatC y) = (if y \<ge> 0 then NegInf else PosInf)"
| "float_div a b = NA"

fun float_add :: "cell \<Rightarrow> real \<Rightarrow> cell" where
  "float_add (FloatC x) e = FloatC (x + e)"
| "float_add PosInf e = PosInf"
| "float_add NegInf e = NegInf"
| "float_add c e = NA"

fun cell_mul :: "cell \<Rightarrow> cell \<Rightarrow> cell" where
  "cell_mul (IntC a) (IntC b) = IntC (a * b)"
| "cell_mul a b = float_mul (to_float a) (to_float b)"

fun cell_pow :: "nat \<Rightarrow> cell \<Rightarrow> cell" where
  "cell_pow d (IntC a) = IntC (a ^ d)"
| "cell_pow d (FloatC x) = FloatC (x ^ d)"
| "cell_pow d PosInf = PosInf"
| "cell_pow d NegInf = (if even d then PosInf else NegInf)"
| "cell_pow d c = NA"

text \<open>
  Arithmetic on columns.  On a column whose dtype is not numeric it is taken
  to raise \<open>TypeError\<close>.  A product of two integer columns is given the
  dtype int64 (numpy's promotion of narrower integer types is left out);
  every other result is float64.
\<close>

definition series_mul :: "series \<Rightarrow> series \<Rightarrow> error + series" where
  "series_mul s1 s2 =
     (if is_number (dtype s1) \<and> is_number (dtype s2)
      then Inr \<lparr>dtype = (if is_integer (dtype s1) \<and> is_integer (dtype s2) then Int64 else Float64),
                cells = map (\<lambda>(a, b). cell_mul a b) (zip (cells s1) (cells s2))\<rparr>
      else Inl TypeError)"

definition series_add :: "series \<Rightarrow> real \<Rightarrow> error + series" where
  "series_add s e =
     (if is_number (dtype s)
      then Inr \<lparr>dtype = Float64, cells = map (\<lambda>c. float_add (to_float c) e) (cells s)\<rparr>
      else Inl TypeError)"

definition series_div :: "series \<Rightarrow> series \<Rightarrow> error + series" where
  "series_div s1 s2 =
     (if is_number (dtype s1) \<and> is_number (dtype s2)
      then Inr \<lparr>dtype = Float64,
                cells = map (\<lambda>(a, b). float_div (to_float a) (to_float b)) (zip (cells s1) (cells s2))\<rparr>
      else Inl TypeError)"

definition series_pow :: "series \<Rightarrow> nat \<Rightarrow> error + series" where
  "series_pow s d =
     (if is_number (dtype s)
      then Inr \<lparr>dtype = dtype s, cells = map (cell_pow d) (cells s)\<rparr>
      else Inl TypeError)"

definition bind_err :: "error + 'a \<Rightarrow> ('a \<Rightarrow> error + 'b) \<Rightarrow> error + 'b" where
  "bind_err m f = (case m of Inl e \<Rightarrow> Inl e | Inr x \<Rightarrow> f x)"

text \<open>
  The attributes of the class; \<open>create_date_features_flag\<close> is the
  constructor argument \<open>create_date_features\<close>, renamed apart from the
  method of the same name.
\<close>

record engineer = transformer +
  create_interactions :: bool
  create_polynomials :: bool
  polynomial_degree :: int
  create_date_features_flag :: bool
  numeric_columns :: "string list"
  date_columns :: "string list"

definition new_AdvancedFeatureEngineer :: "bool \<Rightarrow> bool \<Rightarrow> int \<Rightarrow> bool \<Rightarrow> engineer" where
  "new_AdvancedFeatureEngineer interactions polynomials degree dates =
     \<lparr>feature_names = None, is_fitted = False, create_interactions = interactions,
      create_polynomials = polynomials, polynomial_degree = degree,
      create_date_features_flag = dates, numeric_columns = [], date_columns = []\<rparr>"

text \<open>
  \<open>fit\<close>.  Whether \<open>pd.to_datetime\<close> accepts the first hundred present
  cells of an object column is the library's affair: the parameter
  \<open>parses\<close>.  The bare \<open>except\<close> swallows every exception of the attempt.
\<close>

definition engineer_fit :: "(cell list \<Rightarrow> bool) \<Rightarrow> engineer \<Rightarrow> pyobj \<Rightarrow> error + engineer" where
  "engineer_fit parses self X =
     (case fit self X of
        Inl e \<Rightarrow> Inl e
      | Inr self1 \<Rightarrow>
          (case X of
             NotDataFrame \<Rightarrow> Inl AttributeError
           | DataFrame df \<Rightarrow>
               Inr (self1\<lparr>numeric_columns := columns (select_dtypes is_number df),
                          date_columns :=
                            columns (select_dtypes (\<lambda>d. d = Datetime64) df) @
                            filter (\<lambda>col. case getitem df col of
                                             Inl e \<Rightarrow> False
                                           | Inr s \<Rightarrow> parses (take 100 (filter (\<lambda>c. c \<noteq> NA) (cells s))))
                              (columns (select_dtypes (\<lambda>d. d = Object) df))\<rparr>)))"

text \<open>
  Date features.  \<open>parse\<close> is what \<open>pd.to_datetime(errors='coerce')\<close> makes
  of one cell, \<open>dow\<close> the day of the week of a date; both belong to pandas.
  The \<open>.dt\<close> accessor raises \<open>AttributeError\<close> on a column that holds no
  dates.  A date field is an integer column, or a float column when a date
  is missing.
\<close>

definition to_datetime :: "(cell \<Rightarrow> cell) \<Rightarrow> series \<Rightarrow> series" where
  "to_datetime parse s = \<lparr>dtype = Datetime64, cells = map parse (cells s)\<rparr>"

definition dt_field :: "(nat \<Rightarrow> nat \<Rightarrow> nat \<Rightarrow> int) \<Rightarrow> series \<Rightarrow> error + series" where
  "dt_field f s =
     (if dtype s \<noteq> Datetime64 then Inl AttributeError
      else if NA \<in> set (cells s)
      then Inr \<lparr>dtype = Float64,
                cells = map (\<lambda>c. case c of DateC y m d \<Rightarrow> FloatC (real_of_int (f y m d)) | _ \<Rightarrow> NA)
                          (cells s)\<rparr>
      else Inr \<lparr>dtype = Int32,
                cells = map (\<lambda>c. case c of DateC y m d \<Rightarrow> IntC (f y m d) | _ \<Rightarrow> NA) (cells s)\<rparr>)"

definition is_weekend :: "(nat \<Rightarrow> nat \<Rightarrow> nat \<Rightarrow> int) \<Rightarrow> series \<Rightarrow> error + series" where
  "is_weekend dow s =
     bind_err (dt_field dow s) (\<lambda>w.
       Inr \<lparr>dtype = Int64,
            cells = map (\<lambda>c. IntC (if c \<in> {IntC 5, IntC 6, FloatC 5, FloatC 6} then 1 else 0))
                      (cells w)\<rparr>)"

definition cyclical :: "(real \<Rightarrow> real) \<Rightarrow> real \<Rightarrow> series \<Rightarrow> error + series" where
  "cyclical f period s =
     (if is_number (dtype s)
      then Inr \<lparr>dtype = Float64,
                cells = map (\<lambda>c. case to_float c of FloatC x \<Rightarrow> FloatC (f (2 * pi * x / period))
                                  | _ \<Rightarrow> NA) (cells s)\<rparr>
      else Inl TypeError)"

definition date_features_column ::
  "(cell \<Rightarrow> cell) \<Rightarrow> (nat \<Rightarrow> nat \<Rightarrow> nat \<Rightarrow> int) \<Rightarrow> frame \<Rightarrow> string \<Rightarrow> frame \<times> error option" where
  "date_features_column parse dow X col =
     (if col \<notin> set (columns X) then (X, None)
      else for_each (\<lambda>X' statement. statement X')
        [(\<lambda>X'. case getitem X' col of
                  Inl e \<Rightarrow> (X', Some e)
                | Inr s \<Rightarrow> if dtype s = Object
                           then (setitem X' col (to_datetime parse s), None)
                           else (X', None)),
         assign (col @ ''_year'') (\<lambda>X'. bind_err (getitem X' col) (dt_field (\<lambda>y m d. int y))),
         assign (col @ ''_month'') (\<lambda>X'. bind_err (getitem X' col) (dt_field (\<lambda>y m d. int m))),
         assign (col @ ''_day'') (\<lambda>X'. bind_err (getitem X' col) (dt_field (\<lambda>y m d. int d))),
         assign (col @ ''_dayofweek'') (\<lambda>X'. bind_err (getitem X' col) (dt_field dow)),
         assign (col @ ''_quarter'')
           (\<lambda>X'. bind_err (getitem X' col) (dt_field (\<lambda>y m d. (int m - 1) div 3 + 1))),
         assign (col @ ''_is_weekend'') (\<lambda>X'. bind_err (getitem X' col) (is_weekend dow)),
         assign (col @ ''_month_sin'')
           (\<lambda>X'. bind_err (getitem X' (col @ ''_month'')) (cyclical sin 12)),
         assign (col @ ''_month_cos'')
           (\<lambda>X'. bind_err (getitem X' (col @ ''_month'')) (cyclical cos 12)),
         assign (col @ ''_day_sin'')
           (\<lambda>X'. bind_err (getitem X' (col @ ''_day'')) (cyclical sin 31)),
         assign (col @ ''_day_cos'')
           (\<lambda>X'. bind_err (getitem X' (col @ ''_day'')) (cyclical cos 31))]
        X)"

definition create_date_features ::
  "(cell \<Rightarrow> cell) \<Rightarrow> (nat \<Rightarrow> nat \<Rightarrow> nat \<Rightarrow> int) \<Rightarrow> engineer \<Rightarrow> frame \<Rightarrow> frame \<times> error option" where
  "create_date_features parse dow self X =
     for_each (date_features_column parse dow) (date_columns self) X"

text \<open>Polynomial features, for the first five numeric columns.\<close>

fun str_nat :: "nat \<Rightarrow> string" where
  "str_nat n =
     (if n < 10 then [''0123456789'' ! n]
      else str_nat (n div 10) @ [''0123456789'' ! (n mod 10)])"

definition polynomial_features_column :: "engineer \<Rightarrow> frame \<Rightarrow> string \<Rightarrow> frame \<times> error option" where
  "polynomial_features_column self X col =
     (if col \<notin> set (columns X) then (X, None)
      else for_each
             (\<lambda>X' degree. assign (col @ ''_pow_'' @ str_nat (nat degree))
                              (\<lambda>X''. bind_err (getitem X'' col) (\<lambda>s. series_pow s (nat degree))) X')
             [2 .. polynomial_degree self] X)"

definition create_polynomial_features :: "engineer \<Rightarrow> frame \<Rightarrow> frame \<times> error option" where
  "create_polynomial_features self X =
     for_each (polynomial_features_column self) (take 5 (numeric_columns self)) X"

text \<open>
  Interaction features, for the pairs of the first ten numeric columns in
  the order of \<open>itertools.combinations\<close>.  The denominator of a ratio is
  \<open>X[col2] + 1e-8\<close>, read after the product has been assigned.
\<close>

fun combinations2 :: "'a list \<Rightarrow> ('a \<times> 'a) list" where
  "combinations2 [] = []"
| "combinations2 (x # xs) = map (Pair x) xs @ combinations2 xs"

definition ratio_denominator :: "frame \<Rightarrow> string \<Rightarrow> error + series" where
  "ratio_denominator X col2 = bind_err (getitem X col2) (\<lambda>s2. series_add s2 eps)"

definition product_label :: "string \<Rightarrow> string \<Rightarrow> string" where
  "product_label col1 col2 = col1 @ ''_x_'' @ col2"

definition ratio_label :: "string \<Rightarrow> string \<Rightarrow> string" where
  "ratio_label col1 col2 = col1 @ ''_div_'' @ col2"

definition interaction_pair :: "frame \<Rightarrow> string \<times> string \<Rightarrow> frame \<times> error option" where
  "interaction_pair X pair =
     (case pair of (col1, col2) \<Rightarrow>
        if col1 \<notin> set (columns X) \<or> col2 \<notin> set (columns X) then (X, None)
        else and_then
               (assign (product_label col1 col2)
                  (\<lambda>X'. bind_err (getitem X' col1) (\<lambda>s1.
                         bind_err (getitem X' col2) (\<lambda>s2. series_mul s1 s2))))
               (assign (ratio_label col1 col2)
                  (\<lambda>X'. bind_err (getitem X' col1) (\<lambda>s1.
                         bind_err (ratio_denominator X' col2) (\<lambda>den. series_div s1 den))))
               X)"

definition columns_to_combine :: "engineer \<Rightarrow> string list" where
  "columns_to_combine self = take 10 (numeric_columns self)"

definition create_interaction_features :: "engineer \<Rightarrow> frame \<Rightarrow> frame \<times> error option" where
  "create_interaction_features self X =
     for_each interaction_pair (combinations2 (columns_to_combine self)) X"

text \<open>
  The denominators the loop divides by.  For every iteration it enters and
  does not skip, and whose product is assigned, these are the cells of
  \<open>X[col2] + 1e-8\<close> in the frame as it stands at the division.
\<close>

definition pair_denominators :: "frame \<Rightarrow> string \<times> string \<Rightarrow> cell list" where
  "pair_denominators X pair =
     (case pair of (col1, col2) \<Rightarrow>
        if col1 \<notin> set (columns X) \<or> col2 \<notin> set (columns X) then []
        else
          (case assign (product_label col1 col2)
                  (\<lambda>X'. bind_err (getitem X' col1) (\<lambda>s1.
                         bind_err (getitem X' col2) (\<lambda>s2. series_mul s1 s2))) X of
             (X1, Some e) \<Rightarrow> []
           | (X1, None) \<Rightarrow>
               (case ratio_denominator X1 col2 of Inl e \<Rightarrow> [] | Inr den \<Rightarrow> cells den)))"

definition interaction_denominators :: "engineer \<Rightarrow> frame \<Rightarrow> cell list" where
  "interaction_denominators self X =
     concat (map (\<lambda>(X', pair). pair_denominators X' pair)
               (for_each_states interaction_pair (combinations2 (columns_to_combine self)) X))"

text \<open>
  \<open>_transform_impl\<close>: the three helpers assign columns of the object they
  are given and return that same object.
\<close>

definition skip :: "store \<Rightarrow> store \<times> error option" where
  "skip h = (h, None)"

definition engineer_transform_impl ::
  "(cell \<Rightarrow> cell) \<Rightarrow> (nat \<Rightarrow> nat \<Rightarrow> nat \<Rightarrow> int) \<Rightarrow>
   engineer \<Rightarrow> ref \<Rightarrow> store \<Rightarrow> store \<times> (error + ref)" where
  "engineer_transform_impl parse dow self X h =
     (case h ! X of
        NotDataFrame \<Rightarrow> (h, Inl AttributeError)
      | DataFrame df \<Rightarrow>
          (let (h1, X_transformed) = df_copy h df;
               (h2, r) =
                 and_then
                   (if create_date_features_flag self
                    then in_place (create_date_features parse dow self) X_transformed
                    else skip)
                   (and_then
                      (if create_polynomials self \<and> length (numeric_columns self) > 0
                       then in_place (create_polynomial_features self) X_transformed
                       else skip)
                      (if create_interactions self \<and> length (numeric_columns self) > 1
                       then in_place (create_interaction_features self) X_transformed
                       else skip))
                   h1
           in (h2, case r of None \<Rightarrow> Inr X_transformed | Some e \<Rightarrow> Inl e)))"


section \<open>MLOpsModelTrainer and DataSciencePipeline.train_models\<close>

text \<open>
  What the training code asks of scikit-learn is kept as a trace: the calls
  that are given keyword arguments, in order, each with its callee and its
  keyword arguments.  The data passed by position is left out, and the
  library calls are taken to return.  \<open>PName\<close> is an argument that the caller
  passes on by name.
\<close>

datatype pyval = PInt int | PFloat real | PStr string | PName string

datatype call = Call string "(string \<times> pyval) list"

record ModelConfig =
  model_type :: string
  hyperparameters :: "(string \<times> pyval) list"
  cross_validation_folds :: int
  random_state :: int
  test_size :: real

definition new_ModelConfig :: "string \<Rightarrow> (string \<times> pyval) list \<Rightarrow> ModelConfig" where
  "new_ModelConfig t hp =
     \<lparr>model_type = t, hyperparameters = hp, cross_validation_folds = 5,
      random_state = 42, test_size = 2 / 10\<rparr>"

definition models :: "(string \<times> string) list" where
  "models = [(''random_forest'', ''RandomForestClassifier''),
             (''gradient_boosting'', ''GradientBoostingClassifier''),
             (''logistic_regression'', ''LogisticRegression'')]"

text \<open>
  \<open>train_model\<close>: the constructor gets \<open>random_state\<close> and the
  hyperparameters of the configuration; a hyperparameter named
  \<open>random_state\<close> would be a repeated keyword, a \<open>TypeError\<close>.  Then
  \<open>_evaluate_model\<close> runs the cross-validation and the test metrics.
\<close>

definition evaluate_model :: "ModelConfig \<Rightarrow> call list" where
  "evaluate_model cfg =
     [Call ''cross_val_score''
        [(''cv'', PInt (cross_validation_folds cfg)), (''scoring'', PStr ''accuracy'')],
      Call ''precision_recall_fscore_support'' [(''average'', PStr ''weighted'')]]"

definition train_model :: "ModelConfig \<Rightarrow> call list \<times> error option" where
  "train_model cfg =
     (case map_of models (model_type cfg) of
        None \<Rightarrow> ([], Some KeyError)
      | Some model_class \<Rightarrow>
          if ''random_state'' \<in> fst ` set (hyperparameters cfg) then ([], Some TypeError)
          else (Call model_class
                  ((''random_state'', PInt (random_state cfg)) # hyperparameters cfg)
                # evaluate_model cfg, None))"

definition train_models_step :: "call list \<Rightarrow> string \<Rightarrow> call list \<times> error option" where
  "train_models_step trace t =
     (let configs =
        [(''random_forest'',
            new_ModelConfig t [(''n_estimators'', PInt 100), (''max_depth'', PInt 10)]),
         (''gradient_boosting'',
            new_ModelConfig t [(''n_estimators'', PInt 100), (''learning_rate'', PFloat (1 / 10))]),
         (''logistic_regression'',
            new_ModelConfig t [(''max_iter'', PInt 1000)])]
      in case map_of configs t of
           None \<Rightarrow> (trace, Some KeyError)
         | Some cfg \<Rightarrow> (case train_model cfg of (calls, r) \<Rightarrow> (trace @ calls, r)))"

definition train_models :: "string list option \<Rightarrow> call list \<times> error option" where
  "train_models models_to_train =
     (let ms = (case models_to_train of
                  None \<Rightarrow> [''random_forest'', ''gradient_boosting'', ''logistic_regression'']
                | Some ms \<Rightarrow> ms)
      in for_each train_models_step ms
           [Call ''train_test_split''
              [(''test_size'', PFloat (2 / 10)), (''random_state'', PInt 42),
               (''stratify'', PName ''y'')]])"


text \<open>
  Shorthands for the statements below.  \<open>transform_contract\<close>: what
  \<open>transform\<close> does on a fitted transformer.  \<open>downcast_guard s d\<close>: every
  value of the column lies in the range of \<open>d\<close> and strictly below its
  maximum; an unsigned \<open>d\<close> goes with values that are all nonnegative, a
  signed \<open>d\<close> with a negative value and values strictly above its minimum.
  \<open>kept s s'\<close>: the cells are the same, and a change of dtype obeys the guard.
  \<open>only_at b h h'\<close>: the store \<open>h'\<close> differs from \<open>h\<close> at most in the
  object \<open>b\<close>, which stays a DataFrame if it was one.
\<close>

abbreviation transform_contract ::
  "('a transformer_scheme \<Rightarrow> ref \<Rightarrow> store \<Rightarrow> store \<times> (error + ref)) \<Rightarrow>
   'a transformer_scheme \<Rightarrow> string list \<Rightarrow> bool" where
  "transform_contract impl self C \<equiv>
     \<forall>h X. (h ! X = NotDataFrame \<longrightarrow> transform impl self X h = (h, Inl TypeError)) \<and>
           (\<forall>df. h ! X = DataFrame df \<longrightarrow>
              (if set C \<subseteq> set (columns df)
               then transform impl self X h = impl self X h
               else transform impl self X h = (h, Inl ValueError)))"

abbreviation downcast_guard :: "series \<Rightarrow> dtype \<Rightarrow> bool" where
  "downcast_guard s d \<equiv>
     (\<forall>v \<in> set (int_values s). iinfo_min d \<le> v \<and> v < iinfo_max d) \<and>
     (d \<in> {UInt8, UInt16, UInt32} \<and> (\<forall>v \<in> set (int_values s). 0 \<le> v) \<or>
      d \<in> {Int8, Int16, Int32} \<and> (\<forall>v \<in> set (int_values s). iinfo_min d < v) \<and>
        (\<exists>v \<in> set (int_values s). v < 0))"

abbreviation kept :: "series \<Rightarrow> series \<Rightarrow> bool" where
  "kept s s' \<equiv> cells s' = cells s \<and> (dtype s' \<noteq> dtype s \<longrightarrow> downcast_guard s (dtype s'))"

abbreviation only_at :: "ref \<Rightarrow> store \<Rightarrow> store \<Rightarrow> bool" where
  "only_at b h h' \<equiv>
     length h' = length h \<and> (\<forall>a. a \<noteq> b \<longrightarrow> h' ! a = h ! a) \<and>
     ((\<exists>df. h ! b = DataFrame df) \<longrightarrow> (\<exists>df'. h' ! b = DataFrame df'))"


section \<open>Theorems\<close>

subsection \<open>Loops and the fitted state\<close>

lemma fit_state:
  assumes "fit self X = Inr self'"
  shows "is_fitted self' \<and> (\<exists>df. X = DataFrame df \<and> feature_names self' = Some (columns df))"
  using assms
  by (auto simp: fit_def validate_input_def Let_def split: pyobj.splits if_splits)

lemma for_each_preserves:
  assumes "\<And>s x s' r. P s \<Longrightarrow> x \<in> set xs \<Longrightarrow> body s x = (s', r) \<Longrightarrow> P s'"
    and "P s" and "for_each body xs s = (s', r)"
  shows "P s'"
  using assms
proof (induction xs arbitrary: s)
  case Nil
  then show ?case by simp
next
  case (Cons x xs)
  obtain s1 r1 where b: "body s x = (s1, r1)" by (cases "body s x")
  have p1: "P s1" using Cons.prems(1)[OF Cons.prems(2) _ b] by simp
  show ?case
  proof (cases r1)
    case None
    then have "for_each body xs s1 = (s', r)" using Cons.prems(3) b by simp
    then show ?thesis using Cons.IH[OF _ p1] Cons.prems(1) by (meson list.set_intros(2))
  next
    case (Some e)
    then have "s' = s1" using Cons.prems(3) b by simp
    then show ?thesis using p1 by simp
  qed
qed

lemma transform_not_fitted:
  "\<not> is_fitted self \<Longrightarrow> transform impl self X h = (h, Inl ValueError)"
  by (simp add: transform_def)

lemma transform_fitted:
  assumes "is_fitted self" and "feature_names self = Some C"
  shows "h ! X = NotDataFrame \<Longrightarrow> transform impl self X h = (h, Inl TypeError)"
    and "h ! X = DataFrame df \<Longrightarrow> \<not> set C \<subseteq> set (columns df) \<Longrightarrow>
           transform impl self X h = (h, Inl ValueError)"
    and "h ! X = DataFrame df \<Longrightarrow> set C \<subseteq> set (columns df) \<Longrightarrow>
           transform impl self X h = impl self X h"
  using assms by (auto simp: transform_def validate_input_def Let_def)

lemma imputer_fit_column_base:
  assumes "imputer_fit_column sk_fit df s column = (s', r)"
  shows "is_fitted s' = is_fitted s \<and> feature_names s' = feature_names s"
  using assms
  by (auto simp: imputer_fit_column_def Let_def split: sum.splits if_splits)

lemma imputer_fit_state:
  assumes "imputer_fit sk_fit self X = Inr self'"
  shows "is_fitted self' \<and> (\<exists>df. X = DataFrame df \<and> feature_names self' = Some (columns df))"
proof -
  from assms obtain self1 df self2 r where f: "fit self X = Inr self1" and x: "X = DataFrame df"
    and l: "for_each (imputer_fit_column sk_fit df) (columns df) self1 = (self', None)"
    by (auto simp: imputer_fit_def split: sum.splits pyobj.splits prod.splits option.splits)
  have b: "is_fitted self1 \<and> feature_names self1 = Some (columns df)"
    using fit_state[OF f] x by auto
  have "is_fitted self' \<and> feature_names self' = Some (columns df)"
    by (rule for_each_preserves[where P = "\<lambda>s. is_fitted s \<and> feature_names s = Some (columns df)", OF _ b l])
      (use imputer_fit_column_base in metis)
  then show ?thesis using x by simp
qed

lemma engineer_fit_state:
  assumes "engineer_fit parses self X = Inr self'"
  shows "is_fitted self' \<and> (\<exists>df. X = DataFrame df \<and> feature_names self' = Some (columns df))"
proof -
  from assms obtain self1 df where f: "fit self X = Inr self1" and x: "X = DataFrame df"
    and s: "is_fitted self' = is_fitted self1" "feature_names self' = feature_names self1"
    by (auto simp: engineer_fit_def split: sum.splits pyobj.splits)
  show ?thesis using fit_state[OF f] x s by auto
qed

lemma map_of_setitem:
  "map_of (setitem X col s) c = (if c = col then Some s else map_of X c)"
  by (simp add: setitem_def update_conv')

lemma columns_setitem:
  "col \<in> set (columns X) \<Longrightarrow> columns (setitem X col s) = columns X"
  by (simp add: setitem_def columns_def update_keys)

lemma for_each_states_invariant:
  assumes "\<And>s x s'. P s \<Longrightarrow> x \<in> set xs \<Longrightarrow> body s x = (s', None) \<Longrightarrow> P s'"
    and "P s" and "(s', x) \<in> set (for_each_states body xs s)"
  shows "P s' \<and> x \<in> set xs"
  using assms
proof (induction xs arbitrary: s)
  case Nil
  then show ?case by simp
next
  case (Cons y ys)
  show ?case
  proof (cases "(s', x) = (s, y)")
    case True
    then show ?thesis using Cons.prems(2) by simp
  next
    case False
    obtain s1 r1 where b: "body s y = (s1, r1)" by (cases "body s y")
    show ?thesis
    proof (cases r1)
      case None
      have mem: "(s', x) \<in> set (for_each_states body ys s1)"
        using False Cons.prems(3) b None by auto
      have step: "body s y = (s1, None)" using b None by simp
      have p1: "P s1" by (rule Cons.prems(1)[OF Cons.prems(2) _ step]) simp
      have "P s' \<and> x \<in> set ys"
      proof (rule Cons.IH[OF _ p1 mem])
        fix t z t'
        assume "P t" and "z \<in> set ys" and "body t z = (t', None)"
        then show "P t'" using Cons.prems(1)[of t z t'] by simp
      qed
      then show ?thesis by simp
    next
      case (Some e)
      then have "(s', x) \<in> set [(s, y)]" using Cons.prems(3) b by simp
      then show ?thesis using False by simp
    qed
  qed
qed
lemma assign_other:
  assumes "assign label rhs X = (X', r)" and "c \<noteq> label"
  shows "map_of X' c = map_of X c"
  using assms by (auto simp: assign_def map_of_setitem split: sum.splits)

subsection \<open>The parameters train_models passes on\<close>

text \<open>
  C1 as stated fails: with the default list of models, the split and every
  constructor are given explicit keyword arguments, and neither is called
  with none.
\<close>

theorem train_models_explicit_parameters:
  "fst (train_models None) =
     [Call ''train_test_split''
        [(''test_size'', PFloat (2 / 10)), (''random_state'', PInt 42), (''stratify'', PName ''y'')],
      Call ''RandomForestClassifier''
        [(''random_state'', PInt 42), (''n_estimators'', PInt 100), (''max_depth'', PInt 10)],
      Call ''cross_val_score'' [(''cv'', PInt 5), (''scoring'', PStr ''accuracy'')],
      Call ''precision_recall_fscore_support'' [(''average'', PStr ''weighted'')],
      Call ''GradientBoostingClassifier''
        [(''random_state'', PInt 42), (''n_estimators'', PInt 100),
         (''learning_rate'', PFloat (1 / 10))],
      Call ''cross_val_score'' [(''cv'', PInt 5), (''scoring'', PStr ''accuracy'')],
      Call ''precision_recall_fscore_support'' [(''average'', PStr ''weighted'')],
      Call ''LogisticRegression'' [(''random_state'', PInt 42), (''max_iter'', PInt 1000)],
      Call ''cross_val_score'' [(''cv'', PInt 5), (''scoring'', PStr ''accuracy'')],
      Call ''precision_recall_fscore_support'' [(''average'', PStr ''weighted'')]] \<and>
   Call ''train_test_split'' [] \<notin> set (fst (train_models None)) \<and>
   Call ''RandomForestClassifier'' [] \<notin> set (fst (train_models None))"
  by (simp add: train_models_def train_models_step_def train_model_def evaluate_model_def
      new_ModelConfig_def models_def)

lemma train_models_step_calls:
  assumes "train_models_step trace t = (trace', r)"
  shows "\<exists>calls. trace' = trace @ calls \<and>
     set calls \<subseteq>
       {Call ''RandomForestClassifier''
          [(''random_state'', PInt 42), (''n_estimators'', PInt 100), (''max_depth'', PInt 10)],
        Call ''GradientBoostingClassifier''
          [(''random_state'', PInt 42), (''n_estimators'', PInt 100),
           (''learning_rate'', PFloat (1 / 10))],
        Call ''LogisticRegression'' [(''random_state'', PInt 42), (''max_iter'', PInt 1000)],
        Call ''cross_val_score'' [(''cv'', PInt 5), (''scoring'', PStr ''accuracy'')],
        Call ''precision_recall_fscore_support'' [(''average'', PStr ''weighted'')]}"
  using assms
  by (auto simp: train_models_def train_models_step_def train_model_def evaluate_model_def
      new_ModelConfig_def models_def split: if_splits)


text \<open>
  C1, as amended.  Whatever models are asked for, \<open>train_models\<close> first calls
  \<open>train_test_split\<close> with \<open>test_size=0.2\<close>, \<open>random_state=42\<close> and
  \<open>stratify=y\<close>, and every later call is a constructor with
  \<open>random_state=42\<close> and the fixed hyperparameters of its model type, or
  one of the two evaluation calls with their fixed settings.
\<close>

theorem train_models_calls:
  "\<exists>rest. fst (train_models models_to_train) =
       Call ''train_test_split''
         [(''test_size'', PFloat (2 / 10)), (''random_state'', PInt 42),
          (''stratify'', PName ''y'')] # rest \<and>
     set rest \<subseteq>
       {Call ''RandomForestClassifier''
          [(''random_state'', PInt 42), (''n_estimators'', PInt 100), (''max_depth'', PInt 10)],
        Call ''GradientBoostingClassifier''
          [(''random_state'', PInt 42), (''n_estimators'', PInt 100),
           (''learning_rate'', PFloat (1 / 10))],
        Call ''LogisticRegression'' [(''random_state'', PInt 42), (''max_iter'', PInt 1000)],
        Call ''cross_val_score'' [(''cv'', PInt 5), (''scoring'', PStr ''accuracy'')],
        Call ''precision_recall_fscore_support'' [(''average'', PStr ''weighted'')]}"
proof -
  let ?split = "Call ''train_test_split''
         [(''test_size'', PFloat (2 / 10)), (''random_state'', PInt 42),
          (''stratify'', PName ''y'')]"
  let ?S = "{Call ''RandomForestClassifier''
          [(''random_state'', PInt 42), (''n_estimators'', PInt 100), (''max_depth'', PInt 10)],
        Call ''GradientBoostingClassifier''
          [(''random_state'', PInt 42), (''n_estimators'', PInt 100),
           (''learning_rate'', PFloat (1 / 10))],
        Call ''LogisticRegression'' [(''random_state'', PInt 42), (''max_iter'', PInt 1000)],
        Call ''cross_val_score'' [(''cv'', PInt 5), (''scoring'', PStr ''accuracy'')],
        Call ''precision_recall_fscore_support'' [(''average'', PStr ''weighted'')]}"
  let ?P = "\<lambda>trace. \<exists>rest. trace = ?split # rest \<and> set rest \<subseteq> ?S"
  let ?ms = "case models_to_train of
               None \<Rightarrow> [''random_forest'', ''gradient_boosting'', ''logistic_regression'']
             | Some ms \<Rightarrow> ms"
  obtain trace r where l: "for_each train_models_step ?ms [?split] = (trace, r)"
    by (cases "for_each train_models_step ?ms [?split]")
  have "?P trace"
  proof (rule for_each_preserves[where P = ?P, OF _ _ l])
    show "?P [?split]" by simp
  next
    fix tr t tr' r'
    assume p: "?P tr" and st: "train_models_step tr t = (tr', r')"
    from p obtain rest where rest: "tr = ?split # rest" "set rest \<subseteq> ?S" by blast
    from train_models_step_calls[OF st] obtain calls where
      calls: "tr' = tr @ calls" "set calls \<subseteq> ?S" by blast
    have "tr' = ?split # (rest @ calls)" using rest(1) calls(1) by simp
    moreover have "set (rest @ calls) \<subseteq> ?S" using rest(2) calls(2) by simp
    ultimately show "?P tr'" by blast
  qed
  moreover have "fst (train_models models_to_train) = trace"
    using l by (simp add: train_models_def)
  ultimately show ?thesis by simp
qed

theorem train_models_calls_witness:
  "fst (train_models (Some [''logistic_regression''])) =
     [Call ''train_test_split''
        [(''test_size'', PFloat (2 / 10)), (''random_state'', PInt 42), (''stratify'', PName ''y'')],
      Call ''LogisticRegression'' [(''random_state'', PInt 42), (''max_iter'', PInt 1000)],
      Call ''cross_val_score'' [(''cv'', PInt 5), (''scoring'', PStr ''accuracy'')],
      Call ''precision_recall_fscore_support'' [(''average'', PStr ''weighted'')]]"
  using train_models_calls[of "Some [''logistic_regression'']"]
  by (simp add: train_models_def train_models_step_def train_model_def evaluate_model_def
      new_ModelConfig_def models_def)

subsection \<open>The quality report\<close>

lemma update_fresh_append:
  "k \<notin> fst ` set al \<Longrightarrow> AList.update k v al = al @ [(k, v)]"
  by (induction al) auto

lemma to_dict_acc:
  "distinct (map fst (acc @ kvs)) \<Longrightarrow>
   foldl (\<lambda>d (k, v). AList.update k v d) acc kvs = acc @ kvs"
proof (induction kvs arbitrary: acc)
  case Nil
  then show ?case by simp
next
  case (Cons kv kvs)
  obtain k v where kv: "kv = (k, v)" by (cases kv)
  have fresh: "k \<notin> fst ` set acc" using Cons.prems kv by auto
  have "distinct (map fst ((acc @ [(k, v)]) @ kvs))" using Cons.prems kv by simp
  from Cons.IH[OF this] show ?case using fresh kv by (simp add: update_fresh_append)
qed

lemma to_dict_distinct: "distinct (map fst kvs) \<Longrightarrow> to_dict kvs = kvs"
  using to_dict_acc[of "[]" kvs] by (simp add: to_dict_def)

lemma isnull_sum_total:
  "sum_list (map snd (isnull_sum X)) = (\<Sum>(c, s)\<leftarrow>X. count_list (cells s) NA)"
  by (induction X) (auto simp: isnull_sum_def)

lemma duplicated_from_count:
  "length (filter id (duplicated_from seen rs)) = length rs - card (set rs - set seen)"
proof (induction rs arbitrary: seen)
  case Nil
  then show ?case by simp
next
  case (Cons r rs)
  define a where "a = card (set rs - set (r # seen))"
  define b where "b = card (set (r # rs) - set seen)"
  have ih: "length (filter id (duplicated_from (r # seen) rs)) = length rs - a"
    unfolding a_def by (rule Cons.IH)
  have "card (set rs - set (r # seen)) \<le> card (set rs)"
    by (rule card_mono) auto
  then have le: "a \<le> length rs"
    unfolding a_def using card_length[of rs] by linarith
  have goal: "length (filter id (duplicated_from seen (r # rs))) = length (r # rs) - b"
  proof (cases "r \<in> set seen")
    case True
    have "set (r # rs) - set seen = set rs - set (r # seen)" using True by auto
    then have "b = a" unfolding a_def b_def by (rule arg_cong)
    then show ?thesis using ih le True by simp
  next
    case False
    have "set (r # rs) - set seen = insert r (set rs - set (r # seen))" using False by auto
    then have "b = card (insert r (set rs - set (r # seen)))"
      unfolding b_def by (rule arg_cong)
    also have "\<dots> = Suc a" unfolding a_def by (rule card_insert_disjoint) auto
    finally show ?thesis using ih le False by simp
  qed
  then show ?case unfolding b_def .
qed

lemma duplicated_count: "length (filter id (duplicated X)) = len X - card (set (rows X))"
  by (simp add: duplicated_def duplicated_from_count rows_def)

text \<open>
  C2.  For a loaded frame (distinct labels, columns of one length) with at
  least one row and one column, \<open>generate_quality_report\<close> returns a report
  whose \<open>total_rows\<close> and \<open>total_columns\<close> are the shape of the frame and
  whose \<open>quality_score\<close> is 1 minus 0.5 times the missing cells over rows
  times columns, minus 0.5 times the duplicate rows over rows.  The duplicate
  rows are those that repeat an earlier row: the rows less the distinct
  rows.  The float arithmetic of the score is taken as exact.
\<close>

theorem quality_report:
  assumes "data self = Some X" and "wf_frame X" and "0 < len X" and "0 < length (columns X)"
  shows "\<exists>r. generate_quality_report memory self = Inr r \<and>
           total_rows r = len X \<and> total_columns r = length (columns X) \<and>
           duplicate_rows r = len X - card (set (rows X)) \<and>
           quality_score r =
             1 - 1 / 2 * (real (\<Sum>(c, s)\<leftarrow>X. count_list (cells s) NA) /
                            (real (len X) * real (length (columns X))))
               - 1 / 2 * (real (len X - card (set (rows X))) / real (len X))"
proof -
  have d: "distinct (map fst (isnull_sum X))"
    using assms(2) by (simp add: wf_frame_def columns_def isnull_sum_def comp_def case_prod_unfold)
  have m: "sum_list (map snd (to_dict (isnull_sum X))) = (\<Sum>(c, s)\<leftarrow>X. count_list (cells s) NA)"
    by (simp add: to_dict_distinct[OF d] isnull_sum_total)
  have nz: "len X * length (columns X) \<noteq> 0" using assms(3,4) by simp
  have alg: "1 - (x * (1 / 2) + y * (1 / 2)) = 1 - 1 / 2 * x - 1 / 2 * y" for x y :: real
    by simp
  let ?r = "\<lparr>total_rows = len X, total_columns = length (columns X),
             missing_values = to_dict (isnull_sum X),
             duplicate_rows = length (filter id (duplicated X)),
             data_types = to_dict (map (\<lambda>(c, s). (c, dtype_str (dtype s))) X),
             memory_usage = memory X,
             quality_score =
               1 - (real (sum_list (map snd (to_dict (isnull_sum X)))) /
                      real (len X * length (columns X)) * (1 / 2) +
                    real (length (filter id (duplicated X))) / real (len X) * (1 / 2))\<rparr>"
  have r: "generate_quality_report memory self = Inr ?r"
    using assms(1) nz by (simp add: generate_quality_report_def Let_def)
  have q: "quality_score ?r =
             1 - 1 / 2 * (real (\<Sum>(c, s)\<leftarrow>X. count_list (cells s) NA) /
                            (real (len X) * real (length (columns X))))
               - 1 / 2 * (real (len X - card (set (rows X))) / real (len X))"
    by (simp only: DataQualityReport.simps alg m duplicated_count of_nat_mult)
  show ?thesis
    by (intro exI[of _ ?r] conjI r q) (simp_all add: duplicated_count)
qed


theorem quality_report_witness:
  "\<exists>r. generate_quality_report (\<lambda>X. ''0.00 MB'')
          \<lparr>config = \<lparr>file_path = ''d.csv'', file_type = ''csv'', encoding = ''utf-8'',
                      delimiter = '','', skip_rows = 0, max_rows = None, usecols = None\<rparr>,
           data = Some [(''a'', \<lparr>dtype = Float64, cells = [FloatC 1, NA, FloatC 1]\<rparr>),
                        (''b'', \<lparr>dtype = Object, cells = [StrC ''x'', StrC ''y'', StrC ''x'']\<rparr>)]\<rparr>
          = Inr r \<and>
        total_rows r = 3 \<and> total_columns r = 2 \<and> duplicate_rows r = 1 \<and>
        quality_score r = 3 / 4"
proof -
  let ?X = "[(''a'', \<lparr>dtype = Float64, cells = [FloatC 1, NA, FloatC 1]\<rparr>),
             (''b'', \<lparr>dtype = Object, cells = [StrC ''x'', StrC ''y'', StrC ''x'']\<rparr>)]"
  let ?self = "\<lparr>config = \<lparr>file_path = ''d.csv'', file_type = ''csv'', encoding = ''utf-8'',
                      delimiter = '','', skip_rows = 0, max_rows = None, usecols = None\<rparr>,
                data = Some ?X\<rparr>"
  have w: "wf_frame ?X" by (simp add: wf_frame_def columns_def len_def)
  have l: "len ?X = 3" by (simp add: len_def)
  have c: "length (columns ?X) = 2" by (simp add: columns_def)
  have u: "[0 ..< 3] = [0, 1, 2]" by (simp add: upt_rec)
  have r: "rows ?X = [[FloatC 1, StrC ''x''], [NA, StrC ''y''], [FloatC 1, StrC ''x'']]"
    by (simp add: rows_def l u)
  have d: "card (set (rows ?X)) = 2" unfolding r card_set by simp
  have m: "(\<Sum>(c, s)\<leftarrow>?X. count_list (cells s) NA) = 1" by simp
  show ?thesis
    using quality_report[of ?self ?X "\<lambda>X. ''0.00 MB''", unfolded l c d m] w by simp
qed

subsection \<open>The file type of a DataConfig\<close>

text \<open>
  C3.  Constructing a \<open>DataConfig\<close> fails with a validation error for every
  \<open>file_type\<close> outside \<open>csv, json, parquet, excel\<close>, whatever the path; for
  a \<open>file_type\<close> of that list the validator returns it unchanged, and with a
  path that exists the configuration is built with that \<open>file_type\<close>.
\<close>

theorem DataConfig_file_type:
  "(t \<notin> set [''csv'', ''json'', ''parquet'', ''excel''] \<longrightarrow>
      validate_file_type t = Inl ValueError \<and>
      (\<exists>es. new_DataConfig exists p t = Inl (ValidationError es) \<and> ValueError \<in> set es)) \<and>
   (t \<in> set [''csv'', ''json'', ''parquet'', ''excel''] \<longrightarrow>
      validate_file_type t = Inr t \<and>
      (exists p \<longrightarrow>
         (\<exists>cfg. new_DataConfig exists p t = Inr cfg \<and> file_type cfg = t \<and> file_path cfg = p)))"
  by (auto simp: validate_file_type_def validate_file_exists_def new_DataConfig_def
      allowed_types_def)

theorem DataConfig_file_type_witness:
  "validate_file_type ''xml'' = Inl ValueError \<and>
   (\<exists>es. new_DataConfig (\<lambda>p. p = ''data.csv'') ''data.csv'' ''xml'' = Inl (ValidationError es)
      \<and> ValueError \<in> set es) \<and>
   validate_file_type ''parquet'' = Inr ''parquet'' \<and>
   (\<exists>cfg. new_DataConfig (\<lambda>p. p = ''data.csv'') ''data.csv'' ''parquet'' = Inr cfg
      \<and> file_type cfg = ''parquet'' \<and> file_path cfg = ''data.csv'')"
  using DataConfig_file_type [of "''xml''" "\<lambda>p. p = ''data.csv''" "''data.csv''"]
    DataConfig_file_type [of "''parquet''" "\<lambda>p. p = ''data.csv''" "''data.csv''"]
  by simp

subsection \<open>The fit/transform contract\<close>

lemma transform_contract_fitted:
  assumes "is_fitted self" and "feature_names self = Some C"
  shows "transform_contract impl self C"
  using transform_fitted[OF assms] by auto

text \<open>
  C4.  Every transformer obeys the fit/transform contract.  A new transformer
  of any of the three classes is not fitted, and \<open>transform\<close> on a
  transformer that is not fitted raises \<open>ValueError\<close>.  After \<open>fit\<close> (the
  base class's, the imputer's or the engineer's) on a DataFrame \<open>D\<close>,
  \<open>transform\<close> raises \<open>TypeError\<close> on an argument that is not a DataFrame,
  raises \<open>ValueError\<close> on a DataFrame that lacks a column of \<open>D\<close>, and
  otherwise returns what \<open>_transform_impl\<close> returns.
\<close>

theorem fit_transform_contract:
  "\<not> is_fitted new_transformer \<and>
   \<not> is_fitted (new_SmartMissingValueImputer strat n) \<and>
   \<not> is_fitted (new_AdvancedFeatureEngineer interactions polynomials degree dates) \<and>
   (\<not> is_fitted self \<longrightarrow> (\<forall>h X. transform impl self X h = (h, Inl ValueError))) \<and>
   (fit old (DataFrame D) = Inr new \<longrightarrow> transform_contract impl' new (columns D)) \<and>
   (imputer_fit sk_fit old_imp (DataFrame D) = Inr imp \<longrightarrow>
      transform_contract (imputer_transform_impl sk_transform) imp (columns D)) \<and>
   (engineer_fit parses old_eng (DataFrame D) = Inr eng \<longrightarrow>
      transform_contract (engineer_transform_impl parse dow) eng (columns D))"
proof (intro conjI impI)
  show "\<not> is_fitted new_transformer" by (simp add: new_transformer_def)
  show "\<not> is_fitted (new_SmartMissingValueImputer strat n)"
    by (simp add: new_SmartMissingValueImputer_def)
  show "\<not> is_fitted (new_AdvancedFeatureEngineer interactions polynomials degree dates)"
    by (simp add: new_AdvancedFeatureEngineer_def)
next
  assume "\<not> is_fitted self"
  then show "\<forall>h X. transform impl self X h = (h, Inl ValueError)"
    by (simp add: transform_not_fitted)
next
  assume "fit old (DataFrame D) = Inr new"
  from fit_state[OF this] show "transform_contract impl' new (columns D)"
    by (intro transform_contract_fitted) auto
next
  assume "imputer_fit sk_fit old_imp (DataFrame D) = Inr imp"
  from imputer_fit_state[OF this]
  show "transform_contract (imputer_transform_impl sk_transform) imp (columns D)"
    by (intro transform_contract_fitted) auto
next
  assume "engineer_fit parses old_eng (DataFrame D) = Inr eng"
  from engineer_fit_state[OF this]
  show "transform_contract (engineer_transform_impl parse dow) eng (columns D)"
    by (intro transform_contract_fitted) auto
qed

theorem fit_transform_contract_witness:
  "transform transform_impl new_transformer 0 [DataFrame [(''a'', \<lparr>dtype = Float64, cells = [NA]\<rparr>)]]
     = ([DataFrame [(''a'', \<lparr>dtype = Float64, cells = [NA]\<rparr>)]], Inl ValueError) \<and>
   fit new_transformer (DataFrame [(''a'', \<lparr>dtype = Float64, cells = [NA]\<rparr>)])
     = Inr \<lparr>feature_names = Some [''a''], is_fitted = True\<rparr> \<and>
   transform transform_impl \<lparr>feature_names = Some [''a''], is_fitted = True\<rparr> 1
       [DataFrame [(''a'', \<lparr>dtype = Float64, cells = [NA]\<rparr>)], NotDataFrame, DataFrame []]
     = ([DataFrame [(''a'', \<lparr>dtype = Float64, cells = [NA]\<rparr>)], NotDataFrame, DataFrame []],
        Inl TypeError) \<and>
   transform transform_impl \<lparr>feature_names = Some [''a''], is_fitted = True\<rparr> 2
       [DataFrame [(''a'', \<lparr>dtype = Float64, cells = [NA]\<rparr>)], NotDataFrame, DataFrame []]
     = ([DataFrame [(''a'', \<lparr>dtype = Float64, cells = [NA]\<rparr>)], NotDataFrame, DataFrame []],
        Inl ValueError) \<and>
   transform transform_impl \<lparr>feature_names = Some [''a''], is_fitted = True\<rparr> 0
       [DataFrame [(''a'', \<lparr>dtype = Float64, cells = [NA]\<rparr>)], NotDataFrame, DataFrame []]
     = ([DataFrame [(''a'', \<lparr>dtype = Float64, cells = [NA]\<rparr>)], NotDataFrame, DataFrame []],
        Inl NotImplementedError) \<and>
   (\<exists>imp. imputer_fit (\<lambda>i. None) (new_SmartMissingValueImputer ''auto'' 5)
            (DataFrame [(''a'', \<lparr>dtype = Float64, cells = [NA]\<rparr>)]) = Inr imp \<and>
          transform (imputer_transform_impl (\<lambda>i X. Inr (map snd X))) imp 1
            [DataFrame [(''a'', \<lparr>dtype = Float64, cells = [NA]\<rparr>)], NotDataFrame]
          = ([DataFrame [(''a'', \<lparr>dtype = Float64, cells = [NA]\<rparr>)], NotDataFrame],
             Inl TypeError)) \<and>
   (\<exists>eng. engineer_fit (\<lambda>cs. False) (new_AdvancedFeatureEngineer True True 2 True)
            (DataFrame [(''a'', \<lparr>dtype = Float64, cells = [NA]\<rparr>)]) = Inr eng \<and>
          transform (engineer_transform_impl (\<lambda>c. NA) (\<lambda>y m d. 0)) eng 1
            [DataFrame [(''a'', \<lparr>dtype = Float64, cells = [NA]\<rparr>)], DataFrame []]
          = ([DataFrame [(''a'', \<lparr>dtype = Float64, cells = [NA]\<rparr>)], DataFrame []],
             Inl ValueError))"
proof -
  let ?df = "[(''a'', \<lparr>dtype = Float64, cells = [NA]\<rparr>)]"
  let ?st = "\<lparr>feature_names = Some [''a''], is_fitted = True\<rparr>"
  let ?h = "[DataFrame ?df, NotDataFrame, DataFrame []]"
  note t = fit_transform_contract
    [where old = new_transformer and D = ?df and new = ?st
       and impl' = transform_impl and self = new_transformer and impl = transform_impl
       and sk_fit = "\<lambda>i. None" and old_imp = "new_SmartMissingValueImputer ''auto'' 5"
       and sk_transform = "\<lambda>i X. Inr (map snd X)"
       and parses = "\<lambda>cs. False" and old_eng = "new_AdvancedFeatureEngineer True True 2 True"
       and parse = "\<lambda>c. NA" and dow = "\<lambda>y m d. 0"]
  have f: "fit new_transformer (DataFrame ?df) = Inr ?st"
    by (simp add: fit_def validate_input_def new_transformer_def columns_def)
  have c: "columns ?df = [''a'']" by (simp add: columns_def)
  obtain imp where i: "imputer_fit (\<lambda>i. None) (new_SmartMissingValueImputer ''auto'' 5)
      (DataFrame ?df) = Inr imp"
    by (simp add: imputer_fit_def fit_def validate_input_def new_SmartMissingValueImputer_def
        columns_def imputer_fit_column_def getitem_def missing_ratio_def choose_strategy_def
        getitems_def select_dtypes_def is_number_def is_float_def is_integer_def Let_def)
  obtain eng where e: "engineer_fit (\<lambda>cs. False) (new_AdvancedFeatureEngineer True True 2 True)
      (DataFrame ?df) = Inr eng"
    by (simp add: engineer_fit_def fit_def validate_input_def new_AdvancedFeatureEngineer_def)
  have 1: "transform transform_impl new_transformer 0 [DataFrame ?df] = ([DataFrame ?df], Inl ValueError)"
    using t by blast
  have tc: "transform_contract transform_impl ?st [''a'']"
    using t f c by simp
  have 2: "transform transform_impl ?st 1 ?h = (?h, Inl TypeError)"
    using tc[THEN spec, THEN spec, of ?h 1] by simp
  have 3: "transform transform_impl ?st 2 ?h = (?h, Inl ValueError)"
    using tc[THEN spec, THEN spec, of ?h 2] by (simp add: columns_def)
  have 4: "transform transform_impl ?st 0 ?h = (?h, Inl NotImplementedError)"
    using tc[THEN spec, THEN spec, of ?h 0] by (simp add: columns_def transform_impl_def)
  have ic: "transform_contract (imputer_transform_impl (\<lambda>i X. Inr (map snd X))) imp [''a'']"
    using t[where imp = imp] i c by simp
  have 5: "transform (imputer_transform_impl (\<lambda>i X. Inr (map snd X))) imp 1 [DataFrame ?df, NotDataFrame]
          = ([DataFrame ?df, NotDataFrame], Inl TypeError)"
    using ic[THEN spec, THEN spec, of "[DataFrame ?df, NotDataFrame]" 1] by simp
  have ec: "transform_contract (engineer_transform_impl (\<lambda>c. NA) (\<lambda>y m d. 0)) eng [''a'']"
    using t[where eng = eng] e c by simp
  have 6: "transform (engineer_transform_impl (\<lambda>c. NA) (\<lambda>y m d. 0)) eng 1 [DataFrame ?df, DataFrame []]
          = ([DataFrame ?df, DataFrame []], Inl ValueError)"
    using ec[THEN spec, THEN spec, of "[DataFrame ?df, DataFrame []]" 1] by (simp add: columns_def)
  show ?thesis using 1 f 2 3 4 5 6 i e by blast
qed

subsection \<open>The strategy chosen by the imputer\<close>

lemma imputer_fit_column_skip:
  assumes "map_of X c = Some s" and "missing_ratio s = Some 0"
  shows "imputer_fit_column sk_fit X self c = (self, None)"
  using assms by (simp add: imputer_fit_column_def getitem_def)

lemma imputer_fit_column_choice:
  assumes "imputer_fit_column sk_fit X self c = (self', None)"
    and "map_of X c = Some s" and "missing_ratio s \<noteq> Some 0"
  shows "strategy self' = strategy self \<and> n_neighbors self' = n_neighbors self \<and>
         map_of (strategies self') =
           (map_of (strategies self))(c \<mapsto> choose_strategy (strategy self) s (missing_ratio s)) \<and>
         (\<exists>imp. map_of (imputers self') = (map_of (imputers self))(c \<mapsto> imp) \<and>
            kind imp = (if choose_strategy (strategy self) s (missing_ratio s) = ''knn''
                        then KNNImputer (n_neighbors self)
                        else SimpleImputer (choose_strategy (strategy self) s (missing_ratio s))))"
  using assms
  by (auto simp: imputer_fit_column_def getitem_def Let_def update_conv'
      split: sum.splits if_splits)

lemma imputer_fit_column_other:
  assumes "imputer_fit_column sk_fit X self c = (self', r)"
  shows "strategy self' = strategy self \<and> n_neighbors self' = n_neighbors self \<and>
         (c' \<noteq> c \<longrightarrow> map_of (strategies self') c' = map_of (strategies self) c' \<and>
                     map_of (imputers self') c' = map_of (imputers self) c')"
  using assms
  by (auto simp: imputer_fit_column_def getitem_def Let_def update_conv'
      split: sum.splits if_splits option.splits)

lemma imputer_fit_loop_other:
  assumes "for_each (imputer_fit_column sk_fit X) cs self = (self', r)"
  shows "strategy self' = strategy self \<and> n_neighbors self' = n_neighbors self \<and>
         (c' \<notin> set cs \<longrightarrow> map_of (strategies self') c' = map_of (strategies self) c' \<and>
                          map_of (imputers self') c' = map_of (imputers self) c')"
  using assms
proof (induction cs arbitrary: self)
  case Nil
  then show ?case by simp
next
  case (Cons c cs)
  obtain self1 r1 where b: "imputer_fit_column sk_fit X self c = (self1, r1)"
    by (cases "imputer_fit_column sk_fit X self c")
  note o = imputer_fit_column_other[OF b, of c']
  show ?case
  proof (cases r1)
    case None
    then have "for_each (imputer_fit_column sk_fit X) cs self1 = (self', r)"
      using Cons.prems b by simp
    from Cons.IH[OF this] o show ?thesis by auto
  next
    case (Some e)
    then have "self' = self1" using Cons.prems b by simp
    then show ?thesis using o by auto
  qed
qed

lemma imputer_fit_loop:
  assumes "for_each (imputer_fit_column sk_fit X) cs self = (self', None)"
    and "distinct cs" and "c \<in> set cs" and "map_of X c = Some s"
  shows "if missing_ratio s = Some 0
         then map_of (strategies self') c = map_of (strategies self) c \<and>
              map_of (imputers self') c = map_of (imputers self) c
         else map_of (strategies self') c =
                Some (choose_strategy (strategy self) s (missing_ratio s)) \<and>
              (\<exists>imp. map_of (imputers self') c = Some imp \<and>
                 kind imp = (if choose_strategy (strategy self) s (missing_ratio s) = ''knn''
                             then KNNImputer (n_neighbors self)
                             else SimpleImputer (choose_strategy (strategy self) s (missing_ratio s))))"
  using assms
proof (induction cs arbitrary: self)
  case Nil
  then show ?case by simp
next
  case (Cons x cs)
  obtain self1 r where b: "imputer_fit_column sk_fit X self x = (self1, r)"
    by (cases "imputer_fit_column sk_fit X self x")
  have r: "r = None" using Cons.prems(1) b by (cases r) auto
  have rest: "for_each (imputer_fit_column sk_fit X) cs self1 = (self', None)"
    using Cons.prems(1) b r by simp
  have d: "distinct cs" "x \<notin> set cs" using Cons.prems(2) by auto
  note same = imputer_fit_column_other[OF b]
  show ?case
  proof (cases "c = x")
    case True
    note after = imputer_fit_loop_other[OF rest, of c]
    have nin: "c \<notin> set cs" using True d(2) by simp
    show ?thesis
    proof (cases "missing_ratio s = Some 0")
      case z: True
      have "self1 = self"
        using imputer_fit_column_skip[OF Cons.prems(4) z, of sk_fit self] b True by simp
      then show ?thesis using after nin z by simp
    next
      case nz: False
      note ch = imputer_fit_column_choice[OF b[unfolded r True[symmetric]] Cons.prems(4) nz]
      show ?thesis using after nin nz ch by auto
    qed
  next
    case False
    then have mem: "c \<in> set cs" using Cons.prems(3) by simp
    from Cons.IH[OF rest d(1) mem Cons.prems(4)] same[of c] False
    show ?thesis by auto
  qed
qed


lemma wf_frame_column:
  assumes "wf_frame df" and "(c, s) \<in> set df"
  shows "map_of df c = Some s \<and> length (cells s) = len df"
  using assms by (auto simp: wf_frame_def columns_def list_all_iff)

lemma missing_ratio_zero:
  assumes "cells s \<noteq> []"
  shows "missing_ratio s = Some 0 \<longleftrightarrow> NA \<notin> set (cells s)"
  using assms by (auto simp: missing_ratio_def count_list_0_iff)

text \<open>
  C5.  A \<open>SmartMissingValueImputer\<close> constructed with strategy \<open>auto\<close> and
  fitted on a DataFrame (distinct labels, at least one row): a column with
  no missing value gets no imputer and no strategy; an object or category
  column with a missing value gets \<open>most_frequent\<close>; a float64 or int64
  column with a missing value and a missing ratio below 0.1 gets \<open>mean\<close>;
  any other column with a missing value and a ratio below 0.1 gets
  \<open>most_frequent\<close>; a column that is not object or category with a ratio of
  at least 0.1 gets \<open>knn\<close>.  The imputer stored is of the matching kind.
\<close>

theorem auto_strategy:
  assumes "imputer_fit sk_fit (new_SmartMissingValueImputer ''auto'' n) (DataFrame df) = Inr imp"
    and "wf_frame df" and "0 < len df" and "(c, s) \<in> set df"
  shows
   "(NA \<notin> set (cells s) \<longrightarrow>
       map_of (imputers imp) c = None \<and> map_of (strategies imp) c = None) \<and>
    (NA \<in> set (cells s) \<and> dtype s \<in> {Object, Category} \<longrightarrow>
       map_of (strategies imp) c = Some ''most_frequent'' \<and>
       (\<exists>i. map_of (imputers imp) c = Some i \<and> kind i = SimpleImputer ''most_frequent'')) \<and>
    (NA \<in> set (cells s) \<and> dtype s \<in> {Float64, Int64} \<and>
     real (count_list (cells s) NA) / real (length (cells s)) < 1 / 10 \<longrightarrow>
       map_of (strategies imp) c = Some ''mean'' \<and>
       (\<exists>i. map_of (imputers imp) c = Some i \<and> kind i = SimpleImputer ''mean'')) \<and>
    (NA \<in> set (cells s) \<and> dtype s \<notin> {Object, Category, Float64, Int64} \<and>
     real (count_list (cells s) NA) / real (length (cells s)) < 1 / 10 \<longrightarrow>
       map_of (strategies imp) c = Some ''most_frequent'' \<and>
       (\<exists>i. map_of (imputers imp) c = Some i \<and> kind i = SimpleImputer ''most_frequent'')) \<and>
    (dtype s \<notin> {Object, Category} \<and>
     real (count_list (cells s) NA) / real (length (cells s)) \<ge> 1 / 10 \<longrightarrow>
       map_of (strategies imp) c = Some ''knn'' \<and>
       (\<exists>i. map_of (imputers imp) c = Some i \<and> kind i = KNNImputer n))"
proof -
  let ?new = "new_SmartMissingValueImputer ''auto'' n"
  from assms(1) obtain self1 where f: "fit ?new (DataFrame df) = Inr self1"
    and l: "for_each (imputer_fit_column sk_fit df) (columns df) self1 = (imp, None)"
    by (auto simp: imputer_fit_def split: sum.splits prod.splits option.splits)
  have self1: "strategy self1 = ''auto''" "n_neighbors self1 = n"
    "strategies self1 = []" "imputers self1 = []"
    using f by (auto simp: fit_def validate_input_def new_SmartMissingValueImputer_def
        split: if_splits)
  have col: "map_of df c = Some s" "length (cells s) = len df"
    using wf_frame_column[OF assms(2,4)] by auto
  have ne: "cells s \<noteq> []" using col(2) assms(3) by auto
  have d: "distinct (columns df)" using assms(2) by (simp add: wf_frame_def)
  have m: "c \<in> set (columns df)" using assms(4) by (force simp: columns_def)
  note loop = imputer_fit_loop[OF l d m col(1), unfolded self1 missing_ratio_zero[OF ne]]
  have ratio: "missing_ratio s = Some (real (count_list (cells s) NA) / real (length (cells s)))"
    using ne by (simp add: missing_ratio_def)
  let ?r = "real (count_list (cells s) NA) / real (length (cells s))"
  show ?thesis
  proof (cases "NA \<in> set (cells s)")
    case False
    then have "count_list (cells s) NA = 0" by (simp add: count_list_0_iff)
    then have "\<not> ?r \<ge> 1 / 10" by simp
    then show ?thesis using loop False by simp
  next
    case True
    let ?choice = "choose_strategy ''auto'' s (missing_ratio s)"
    have st: "map_of (strategies imp) c = Some ?choice"
      and im: "\<exists>i. map_of (imputers imp) c = Some i \<and>
                 kind i = (if ?choice = ''knn'' then KNNImputer n else SimpleImputer ?choice)"
      using loop True by auto
    have 1: "dtype s \<in> {Object, Category} \<Longrightarrow> ?choice = ''most_frequent''"
      by (simp add: choose_strategy_def)
    have 2: "dtype s \<in> {Float64, Int64} \<Longrightarrow> ?r < 1 / 10 \<Longrightarrow> ?choice = ''mean''"
      unfolding ratio by (auto simp: choose_strategy_def)
    have 3: "dtype s \<notin> {Object, Category, Float64, Int64} \<Longrightarrow> ?r < 1 / 10 \<Longrightarrow>
             ?choice = ''most_frequent''"
      unfolding ratio by (auto simp: choose_strategy_def)
    have 4: "dtype s \<notin> {Object, Category} \<Longrightarrow> ?r \<ge> 1 / 10 \<Longrightarrow> ?choice = ''knn''"
      unfolding ratio by (auto simp: choose_strategy_def)
    show ?thesis
    proof (intro conjI impI)
      show "map_of (imputers imp) c = None" if "NA \<notin> set (cells s)"
        using that True by simp
      show "map_of (strategies imp) c = None" if "NA \<notin> set (cells s)"
        using that True by simp
    next
      assume a: "NA \<in> set (cells s) \<and> dtype s \<in> {Object, Category}"
      show "map_of (strategies imp) c = Some ''most_frequent''" using st 1 a by simp
      show "\<exists>i. map_of (imputers imp) c = Some i \<and> kind i = SimpleImputer ''most_frequent''"
        using im 1 a by simp
    next
      assume a: "NA \<in> set (cells s) \<and> dtype s \<in> {Float64, Int64} \<and> ?r < 1 / 10"
      show "map_of (strategies imp) c = Some ''mean''" using st 2 a by simp
      show "\<exists>i. map_of (imputers imp) c = Some i \<and> kind i = SimpleImputer ''mean''"
        using im 2 a by simp
    next
      assume a: "NA \<in> set (cells s) \<and> dtype s \<notin> {Object, Category, Float64, Int64} \<and> ?r < 1 / 10"
      show "map_of (strategies imp) c = Some ''most_frequent''" using st 3 a by simp
      show "\<exists>i. map_of (imputers imp) c = Some i \<and> kind i = SimpleImputer ''most_frequent''"
        using im 3 a by simp
    next
      assume a: "dtype s \<notin> {Object, Category} \<and> ?r \<ge> 1 / 10"
      show "map_of (strategies imp) c = Some ''knn''" using st 4 a by simp
      show "\<exists>i. map_of (imputers imp) c = Some i \<and> kind i = KNNImputer n"
        using im 4 a by simp
    qed
  qed
qed


theorem auto_strategy_witness:
  "\<exists>imp. imputer_fit (\<lambda>i. None) (new_SmartMissingValueImputer ''auto'' 5)
     (DataFrame [(''a'', \<lparr>dtype = Float64, cells = [FloatC 1, NA]\<rparr>),
                 (''b'', \<lparr>dtype = Object, cells = [StrC ''u'', NA]\<rparr>),
                 (''c'', \<lparr>dtype = Int64, cells = [IntC 3, IntC 4]\<rparr>)]) = Inr imp \<and>
     map_of (strategies imp) ''a'' = Some ''knn'' \<and>
     map_of (strategies imp) ''b'' = Some ''most_frequent'' \<and>
     map_of (imputers imp) ''c'' = None \<and>
   (\<exists>imp. imputer_fit (\<lambda>i. None) (new_SmartMissingValueImputer ''auto'' 5)
     (DataFrame [(''m'', \<lparr>dtype = Float64,
                    cells = [NA, FloatC 1, FloatC 2, FloatC 3, FloatC 4, FloatC 5, FloatC 6,
                             FloatC 7, FloatC 8, FloatC 9, FloatC 10]\<rparr>)]) = Inr imp \<and>
     map_of (strategies imp) ''m'' = Some ''mean'')"
proof -
  let ?m = "\<lparr>dtype = Float64,
             cells = [NA, FloatC 1, FloatC 2, FloatC 3, FloatC 4, FloatC 5, FloatC 6,
                      FloatC 7, FloatC 8, FloatC 9, FloatC 10]\<rparr>"
  obtain imp' where i': "imputer_fit (\<lambda>i. None) (new_SmartMissingValueImputer ''auto'' 5)
      (DataFrame [(''m'', ?m)]) = Inr imp'"
    by (simp add: imputer_fit_def fit_def validate_input_def new_SmartMissingValueImputer_def
        columns_def imputer_fit_column_def getitem_def missing_ratio_def choose_strategy_def
        getitems_def select_dtypes_def is_number_def is_float_def is_integer_def Let_def)
  have w': "wf_frame [(''m'', ?m)]" by (simp add: wf_frame_def columns_def len_def)
  have l': "0 < len [(''m'', ?m)]" by (simp add: len_def)
  have m: "map_of (strategies imp') ''m'' = Some ''mean''"
    using auto_strategy[OF i' w' l', of "''m''" ?m] by simp
  let ?df = "[(''a'', \<lparr>dtype = Float64, cells = [FloatC 1, NA]\<rparr>),
              (''b'', \<lparr>dtype = Object, cells = [StrC ''u'', NA]\<rparr>),
              (''c'', \<lparr>dtype = Int64, cells = [IntC 3, IntC 4]\<rparr>)]"
  obtain imp where i: "imputer_fit (\<lambda>i. None) (new_SmartMissingValueImputer ''auto'' 5)
      (DataFrame ?df) = Inr imp"
    by (simp add: imputer_fit_def fit_def validate_input_def new_SmartMissingValueImputer_def
        columns_def imputer_fit_column_def getitem_def missing_ratio_def choose_strategy_def
        getitems_def select_dtypes_def is_number_def is_float_def is_integer_def Let_def)
  have w: "wf_frame ?df" by (simp add: wf_frame_def columns_def len_def)
  have l: "0 < len ?df" by (simp add: len_def)
  have a: "map_of (strategies imp) ''a'' = Some ''knn''"
    using auto_strategy[OF i w l, of "''a''" "\<lparr>dtype = Float64, cells = [FloatC 1, NA]\<rparr>"]
    by simp
  have b: "map_of (strategies imp) ''b'' = Some ''most_frequent''"
    using auto_strategy[OF i w l, of "''b''" "\<lparr>dtype = Object, cells = [StrC ''u'', NA]\<rparr>"]
    by simp
  have c: "map_of (imputers imp) ''c'' = None"
    using auto_strategy[OF i w l, of "''c''" "\<lparr>dtype = Int64, cells = [IntC 3, IntC 4]\<rparr>"]
    by simp
  show ?thesis using i a b c i' m by blast
qed

subsection \<open>Integer columns under the dtype optimisation\<close>

lemma wrap_in_range:
  assumes "iinfo_min d \<le> v" and "v \<le> iinfo_max d"
  shows "wrap d v = v"
proof -
  have "0 \<le> v - iinfo_min d" and "v - iinfo_min d < iinfo_max d - iinfo_min d + 1"
    using assms by auto
  then have "(v - iinfo_min d) mod (iinfo_max d - iinfo_min d + 1) = v - iinfo_min d"
    by (rule mod_pos_pos_trivial)
  then show ?thesis by (simp add: wrap_def)
qed

lemma int_values_mem: "v \<in> set (int_values s) \<longleftrightarrow> IntC v \<in> set (cells s)"
proof -
  have "v \<in> set (List.map_filter (\<lambda>c. case c of IntC v \<Rightarrow> Some v | _ \<Rightarrow> None) cs)
        \<longleftrightarrow> IntC v \<in> set cs" for cs
    by (induction cs) (auto split: cell.splits)
  then show ?thesis by (simp add: int_values_def)
qed

lemma astype_in_range:
  assumes "\<forall>v \<in> set (int_values s). iinfo_min d \<le> v \<and> v \<le> iinfo_max d"
  shows "cells (astype d s) = cells s"
proof -
  have "(case c of IntC v \<Rightarrow> IntC (wrap d v) | _ \<Rightarrow> c) = c" if "c \<in> set (cells s)" for c
  proof (cases c)
    case (IntC v)
    then have "v \<in> set (int_values s)" using that by (simp add: int_values_mem)
    then have "wrap d v = v" using assms by (simp add: wrap_in_range)
    then show ?thesis using IntC by simp
  qed simp_all
  then show ?thesis by (simp add: astype_def map_idI)
qed

lemma col_min_le:
  assumes "col_min s = Some lo" and "v \<in> set (int_values s)"
  shows "lo \<le> v"
  using assms by (auto simp: col_min_def split: if_splits)

lemma col_max_ge:
  assumes "col_max s = Some hi" and "v \<in> set (int_values s)"
  shows "v \<le> hi"
  using assms by (auto simp: col_max_def split: if_splits)

lemma col_min_mem:
  assumes "col_min s = Some lo"
  shows "lo \<in> set (int_values s)"
  using assms Min_in[of "set (int_values s)"] by (auto simp: col_min_def split: if_splits)


lemma kept_unsigned:
  assumes "col_min s = Some lo" and "col_max s = Some hi" and "0 \<le> lo"
    and "hi < iinfo_max d" and "d \<in> {UInt8, UInt16, UInt32}"
  shows "kept s (astype d s)"
proof -
  have z: "iinfo_min d = 0" using assms(5) by auto
  have b: "\<forall>v \<in> set (int_values s). iinfo_min d \<le> v \<and> v < iinfo_max d \<and> 0 \<le> v"
    using col_min_le[OF assms(1)] col_max_ge[OF assms(2)] assms(3,4) z by fastforce
  then have "cells (astype d s) = cells s" by (intro astype_in_range) fastforce
  moreover have "dtype (astype d s) = d" by (simp add: astype_def)
  ultimately show ?thesis using b assms(5) by simp
qed

lemma kept_signed:
  assumes "col_min s = Some lo" and "col_max s = Some hi" and "\<not> 0 \<le> lo"
    and "iinfo_min d < lo" and "hi < iinfo_max d" and "d \<in> {Int8, Int16, Int32}"
  shows "kept s (astype d s)"
proof -
  have b: "\<forall>v \<in> set (int_values s). iinfo_min d < v \<and> v < iinfo_max d"
    using col_min_le[OF assms(1)] col_max_ge[OF assms(2)] assms(4,5) by fastforce
  then have "cells (astype d s) = cells s" by (intro astype_in_range) fastforce
  moreover have "dtype (astype d s) = d" by (simp add: astype_def)
  moreover have "\<exists>v \<in> set (int_values s). v < 0"
    using col_min_mem[OF assms(1)] assms(3) by force
  moreover have "\<forall>v \<in> set (int_values s). iinfo_min d \<le> v \<and> v < iinfo_max d"
    using b by fastforce
  ultimately show ?thesis using b assms(6) by simp
qed

lemma optimize_int_column_other:
  "c \<noteq> col \<Longrightarrow> map_of (optimize_int_column col X) c = map_of X c"
  by (auto simp: optimize_int_column_def map_of_setitem split: option.splits)

lemma optimize_int_column_columns:
  "columns (optimize_int_column col X) = columns X"
proof (cases "map_of X col")
  case None
  then show ?thesis by (simp add: optimize_int_column_def)
next
  case (Some s)
  then have "col \<in> set (columns X)" by (force simp: columns_def dest: map_of_SomeD)
  then show ?thesis
    by (auto simp: optimize_int_column_def columns_setitem split: option.splits)
qed

lemma optimize_int_column_target:
  assumes "map_of X col = Some s"
  shows "\<exists>s'. map_of (optimize_int_column col X) col = Some s' \<and> kept s s'"
proof (cases "col_min s")
  case None
  then show ?thesis using assms by (simp add: optimize_int_column_def)
next
  case lo: (Some lo)
  show ?thesis
  proof (cases "col_max s")
    case None
    then show ?thesis using assms lo by (simp add: optimize_int_column_def)
  next
    case hi: (Some hi)
    note u = kept_unsigned[OF lo hi]
    note g = kept_signed[OF lo hi]
    show ?thesis
    proof (cases "0 \<le> lo")
      case True
      have u8: "hi < 255 \<Longrightarrow> kept s (astype UInt8 s)" using u[OF True, of UInt8] by simp
      have u16: "hi < 65535 \<Longrightarrow> kept s (astype UInt16 s)" using u[OF True, of UInt16] by simp
      have u32: "hi < 4294967295 \<Longrightarrow> kept s (astype UInt32 s)" using u[OF True, of UInt32] by simp
      show ?thesis
        using assms lo hi True u8 u16 u32
        by (simp add: optimize_int_column_def map_of_setitem)
    next
      case False
      have i8: "- 128 < lo \<Longrightarrow> hi < 127 \<Longrightarrow> kept s (astype Int8 s)"
        using g[OF False, of Int8] by simp
      have i16: "- 32768 < lo \<Longrightarrow> hi < 32767 \<Longrightarrow> kept s (astype Int16 s)"
        using g[OF False, of Int16] by simp
      have i32: "- 2147483648 < lo \<Longrightarrow> hi < 2147483647 \<Longrightarrow> kept s (astype Int32 s)"
        using g[OF False, of Int32] by simp
      show ?thesis
        using assms lo hi False i8 i16 i32
        by (simp add: optimize_int_column_def map_of_setitem)
    qed
  qed
qed


lemma kept_trans:
  assumes "kept s s1" and "kept s1 s2"
  shows "kept s s2"
proof -
  have "int_values s1 = int_values s" using assms(1) by (simp add: int_values_def)
  then show ?thesis using assms by (cases "dtype s2 = dtype s1") auto
qed

lemma fold_int_other:
  "c \<notin> set cs \<Longrightarrow> map_of (fold optimize_int_column cs X) c = map_of X c"
  by (induction cs arbitrary: X) (auto simp: optimize_int_column_other)

lemma fold_int_columns: "columns (fold optimize_int_column cs X) = columns X"
  by (induction cs arbitrary: X) (auto simp: optimize_int_column_columns)

lemma fold_int_kept:
  assumes "map_of X c = Some s"
  shows "\<exists>s'. map_of (fold optimize_int_column cs X) c = Some s' \<and> kept s s'"
  using assms
proof (induction cs arbitrary: X s)
  case Nil
  then show ?case by simp
next
  case (Cons col cs)
  obtain s1 where s1: "map_of (optimize_int_column col X) c = Some s1" and k1: "kept s s1"
  proof (cases "c = col")
    case True
    then show ?thesis using optimize_int_column_target[of X col s] Cons.prems that by blast
  next
    case False
    then show ?thesis using optimize_int_column_other[of c col X] Cons.prems that by simp
  qed
  from Cons.IH[OF s1] obtain s' where
    s': "map_of (fold optimize_int_column cs (optimize_int_column col X)) c = Some s'"
    and k2: "kept s1 s'" by blast
  have "kept s s'" using kept_trans[OF k1 k2] .
  then show ?case using s' by simp
qed

lemma optimize_float_column_other:
  "c \<noteq> col \<Longrightarrow> map_of (optimize_float_column f col X) c = map_of X c"
  by (auto simp: optimize_float_column_def map_of_setitem split: option.splits)

lemma optimize_float_column_columns:
  "columns (optimize_float_column f col X) = columns X"
proof (cases "map_of X col")
  case None
  then show ?thesis by (simp add: optimize_float_column_def)
next
  case (Some s)
  then have "col \<in> set (columns X)" by (force simp: columns_def dest: map_of_SomeD)
  then show ?thesis using Some by (simp add: optimize_float_column_def columns_setitem)
qed

lemma fold_float_other:
  "c \<notin> set cs \<Longrightarrow> map_of (fold (optimize_float_column f) cs X) c = map_of X c"
  by (induction cs arbitrary: X) (auto simp: optimize_float_column_other)

lemma fold_float_columns: "columns (fold (optimize_float_column f) cs X) = columns X"
  by (induction cs arbitrary: X) (auto simp: optimize_float_column_columns)

lemma optimize_object_column_other:
  assumes "optimize_object_column X col = (X', r)" and "c \<noteq> col"
  shows "map_of X' c = map_of X c"
  using assms
  by (auto simp: optimize_object_column_def map_of_setitem split: option.splits if_splits)

lemma for_each_object_other:
  assumes "for_each optimize_object_column cs X = (X', r)" and "c \<notin> set cs"
  shows "map_of X' c = map_of X c"
  by (rule for_each_preserves[where P = "\<lambda>Y. map_of Y c = map_of X c", OF _ _ assms(1)])
    (use assms(2) optimize_object_column_other in \<open>auto, metis\<close>)

lemma select_dtypes_member:
  assumes "c \<in> set (columns (select_dtypes p X))" and "distinct (columns X)"
    and "map_of X c = Some s"
  shows "p (dtype s)"
proof -
  from assms(1) obtain s0 where "(c, s0) \<in> set X" and p: "p (dtype s0)"
    by (auto simp: columns_def select_dtypes_def)
  then have "map_of X c = Some s0" using assms(2) by (simp add: columns_def)
  then show ?thesis using assms(3) p by simp
qed


text \<open>
  C8, as amended.  \<open>_optimize_dtypes\<close> changes no stored integer: on a frame
  with distinct labels, every column of an integer dtype has the same cells
  afterwards, whether the call returns or raises.  Its dtype changes only if
  it was int64, and then only to a dtype whose range holds every value, with
  the maximum strictly below the dtype's maximum; the minimum is at least 0
  for an unsigned target (chosen when no value is negative) and strictly
  above the dtype's minimum for a signed one.
\<close>

theorem optimize_dtypes_keeps_integers:
  assumes "data self = Some X" and "distinct (columns X)"
    and "map_of X c = Some s" and "is_integer (dtype s)"
    and "optimize_dtypes downcast_float self = (self', r)"
  shows "\<exists>X' s'. data self' = Some X' \<and> map_of X' c = Some s' \<and> cells s' = cells s \<and>
           (dtype s' \<noteq> dtype s \<longrightarrow> dtype s = Int64 \<and> downcast_guard s (dtype s'))"
proof -
  define X1 where "X1 = fold optimize_int_column (columns (select_dtypes (\<lambda>d. d = Int64) X)) X"
  define X2 where "X2 = fold (optimize_float_column downcast_float)
                          (columns (select_dtypes (\<lambda>d. d = Float64) X1)) X1"
  obtain X3 r3 where l3: "for_each optimize_object_column
                            (columns (select_dtypes (\<lambda>d. d = Object) X2)) X2 = (X3, r3)"
    by (cases "for_each optimize_object_column (columns (select_dtypes (\<lambda>d. d = Object) X2)) X2")
  have res: "data self' = Some X3"
    using assms(1,5) l3 by (auto simp: optimize_dtypes_def Let_def X1_def X2_def)
  obtain s1 where s1: "map_of X1 c = Some s1" and k: "kept s s1"
    unfolding X1_def using fold_int_kept[OF assms(3)] by blast
  have same: "s1 = s" if "dtype s \<noteq> Int64"
  proof -
    have "c \<notin> set (columns (select_dtypes (\<lambda>d. d = Int64) X))"
      using select_dtypes_member[OF _ assms(2,3), of "\<lambda>d. d = Int64"] that by blast
    then have "map_of X1 c = map_of X c" unfolding X1_def by (rule fold_int_other)
    then show ?thesis using s1 assms(3) by simp
  qed
  have int1: "is_integer (dtype s1)"
    using k assms(4) by (cases "dtype s1 = dtype s") (auto simp: is_integer_def)
  have d1: "distinct (columns X1)" unfolding X1_def using assms(2) by (simp add: fold_int_columns)
  have "c \<notin> set (columns (select_dtypes (\<lambda>d. d = Float64) X1))"
    using select_dtypes_member[OF _ d1 s1, of "\<lambda>d. d = Float64"] int1
    by (auto simp: is_integer_def)
  then have s2: "map_of X2 c = Some s1"
    unfolding X2_def using s1 by (simp add: fold_float_other)
  have d2: "distinct (columns X2)" unfolding X2_def using d1 by (simp add: fold_float_columns)
  have "c \<notin> set (columns (select_dtypes (\<lambda>d. d = Object) X2))"
    using select_dtypes_member[OF _ d2 s2, of "\<lambda>d. d = Object"] int1
    by (auto simp: is_integer_def)
  then have s3: "map_of X3 c = Some s1"
    using for_each_object_other[OF l3] s2 by simp
  have "dtype s1 \<noteq> dtype s \<longrightarrow> dtype s = Int64 \<and> downcast_guard s (dtype s1)"
    using k same by blast
  then show ?thesis using res s3 k by blast
qed

theorem optimize_dtypes_keeps_integers_witness:
  "\<exists>X' s'. data (fst (optimize_dtypes (\<lambda>s. s)
        \<lparr>config = \<lparr>file_path = ''d.csv'', file_type = ''csv'', encoding = ''utf-8'',
                    delimiter = '','', skip_rows = 0, max_rows = None, usecols = None\<rparr>,
         data = Some [(''a'', \<lparr>dtype = Int64, cells = [IntC (- 5), IntC 100]\<rparr>),
                      (''b'', \<lparr>dtype = Object, cells = [StrC ''x'', StrC ''y'']\<rparr>)]\<rparr>)) = Some X' \<and>
      map_of X' ''a'' = Some s' \<and> cells s' = [IntC (- 5), IntC 100]"
proof -
  let ?X = "[(''a'', \<lparr>dtype = Int64, cells = [IntC (- 5), IntC 100]\<rparr>),
             (''b'', \<lparr>dtype = Object, cells = [StrC ''x'', StrC ''y'']\<rparr>)]"
  let ?self = "\<lparr>config = \<lparr>file_path = ''d.csv'', file_type = ''csv'', encoding = ''utf-8'',
                      delimiter = '','', skip_rows = 0, max_rows = None, usecols = None\<rparr>,
                data = Some ?X\<rparr>"
  have "optimize_dtypes (\<lambda>s. s) ?self =
        (fst (optimize_dtypes (\<lambda>s. s) ?self), snd (optimize_dtypes (\<lambda>s. s) ?self))"
    by simp
  from optimize_dtypes_keeps_integers[OF _ _ _ _ this, of ?X "''a''"
      "\<lparr>dtype = Int64, cells = [IntC (- 5), IntC 100]\<rparr>"]
  have "\<exists>X' s'. data (fst (optimize_dtypes (\<lambda>s. s) ?self)) = Some X' \<and>
          map_of X' ''a'' = Some s' \<and>
          cells s' = cells \<lparr>dtype = Int64, cells = [IntC (- 5), IntC 100]\<rparr> \<and>
          (dtype s' \<noteq> dtype \<lparr>dtype = Int64, cells = [IntC (- 5), IntC 100]\<rparr> \<longrightarrow>
             dtype \<lparr>dtype = Int64, cells = [IntC (- 5), IntC 100]\<rparr> = Int64 \<and>
             downcast_guard \<lparr>dtype = Int64, cells = [IntC (- 5), IntC 100]\<rparr> (dtype s'))"
    by (simp add: columns_def is_integer_def)
  then obtain X' s' where "data (fst (optimize_dtypes (\<lambda>s. s) ?self)) = Some X'"
    and "map_of X' ''a'' = Some s'"
    and "cells s' = cells \<lparr>dtype = Int64, cells = [IntC (- 5), IntC 100]\<rparr>"
    by blast
  then show ?thesis by simp
qed

text \<open>
  C8 as stated fails where it says that the minimum lies strictly inside the
  range of the target: the column \<open>[0, 10]\<close> is cast to uint8, whose minimum
  is its own minimum 0.
\<close>

theorem downcast_at_lower_bound:
  "fst (optimize_dtypes (\<lambda>s. s)
        \<lparr>config = \<lparr>file_path = ''d.csv'', file_type = ''csv'', encoding = ''utf-8'',
                    delimiter = '','', skip_rows = 0, max_rows = None, usecols = None\<rparr>,
         data = Some [(''a'', \<lparr>dtype = Int64, cells = [IntC 0, IntC 10]\<rparr>)]\<rparr>)
   = \<lparr>config = \<lparr>file_path = ''d.csv'', file_type = ''csv'', encoding = ''utf-8'',
                    delimiter = '','', skip_rows = 0, max_rows = None, usecols = None\<rparr>,
      data = Some [(''a'', \<lparr>dtype = UInt8, cells = [IntC 0, IntC 10]\<rparr>)]\<rparr> \<and>
   col_min \<lparr>dtype = Int64, cells = [IntC 0, IntC 10]\<rparr> = Some 0 \<and>
   \<not> iinfo_min UInt8 < 0"
  by (simp add: optimize_dtypes_def select_dtypes_def columns_def optimize_int_column_def
      col_min_def col_max_def int_values_def setitem_def astype_def wrap_def)

subsection \<open>The argument of transform\<close>

lemma in_place_only_at:
  assumes "in_place f b h = (h', r)"
  shows "only_at b h h'"
proof (cases "h ! b")
  case NotDataFrame
  then show ?thesis using assms by (simp add: in_place_def)
next
  case (DataFrame df)
  obtain df' where h': "h' = h[b := DataFrame df']"
    using assms DataFrame by (auto simp: in_place_def split: prod.splits)
  have "\<exists>d. h' ! b = DataFrame d"
  proof (cases "b < length h")
    case True
    then show ?thesis using h' by simp
  next
    case False
    then have "length h \<le> b" by simp
    then have "h[b := DataFrame df'] = h" by (rule list_update_beyond)
    then show ?thesis using h' DataFrame by simp
  qed
  then show ?thesis using h' by simp
qed

lemma skip_only_at:
  assumes "skip h = (h', r)"
  shows "only_at b h h'"
  using assms by (simp add: skip_def)

lemma and_then_only_at:
  assumes "and_then f g h = (h', r)"
    and "\<And>k k' r'. f k = (k', r') \<Longrightarrow> only_at b k k'"
    and "\<And>k k' r'. g k = (k', r') \<Longrightarrow> only_at b k k'"
  shows "only_at b h h'"
proof -
  obtain h1 r1 where f: "f h = (h1, r1)" by (cases "f h")
  note 1 = assms(2)[OF f]
  show ?thesis
  proof (cases r1)
    case None
    then have "g h1 = (h', r)" using assms(1) f by (simp add: and_then_def)
    from assms(3)[OF this] 1 show ?thesis by simp
  next
    case (Some e)
    then have "h' = h1" using assms(1) f by (simp add: and_then_def)
    then show ?thesis using 1 by simp
  qed
qed

lemma copy_then_only_at:
  assumes "only_at (length h) (h @ [x]) h'"
  shows "take (length h) h' = h"
proof (rule nth_equalityI)
  show "length (take (length h) h') = length h" using assms by simp
next
  fix i assume "i < length (take (length h) h')"
  then have i: "i < length h" by simp
  then have "h' ! i = (h @ [x]) ! i" using assms by simp
  then show "take (length h) h' ! i = h ! i" using i by (simp add: nth_append)
qed

lemma imputer_transform_impl_frame:
  assumes "imputer_transform_impl sk_transform self X h = (h', res)"
  shows "take (length h) h' = h \<and>
         (\<forall>b. res = Inr b \<longrightarrow> b = length h \<and> length h < length h' \<and> (\<exists>df'. h' ! b = DataFrame df'))"
proof (cases "h ! X")
  case NotDataFrame
  then show ?thesis using assms by (auto simp: imputer_transform_impl_def)
next
  case (DataFrame df)
  let ?h1 = "h @ [DataFrame df]"
  obtain h2 r where l: "in_place (for_each (imputer_transform_column sk_transform self)
                                     (imputers self)) (length h) ?h1 = (h2, r)"
    by (cases "in_place (for_each (imputer_transform_column sk_transform self)
                                     (imputers self)) (length h) ?h1")
  have h': "h' = h2" and res: "res = (case r of None \<Rightarrow> Inr (length h) | Some e \<Rightarrow> Inl e)"
    using assms DataFrame l by (simp_all add: imputer_transform_impl_def df_copy_def)
  note o = in_place_only_at[OF l]
  have "take (length h) h2 = h" using copy_then_only_at[where h = h and x = "DataFrame df" and h' = h2] o by simp
  moreover have "length h < length h2" using o by simp
  moreover have "\<exists>df'. h2 ! length h = DataFrame df'" using o by simp
  ultimately show ?thesis using h' res by (auto split: option.splits)
qed

lemma engineer_transform_impl_frame:
  assumes "engineer_transform_impl parse dow self X h = (h', res)"
  shows "take (length h) h' = h \<and>
         (\<forall>b. res = Inr b \<longrightarrow> b = length h \<and> length h < length h' \<and> (\<exists>df'. h' ! b = DataFrame df'))"
proof (cases "h ! X")
  case NotDataFrame
  then show ?thesis using assms by (auto simp: engineer_transform_impl_def)
next
  case (DataFrame df)
  let ?h1 = "h @ [DataFrame df]"
  let ?b = "length h"
  let ?d = "if create_date_features_flag self
            then in_place (create_date_features parse dow self) ?b else skip"
  let ?p = "if create_polynomials self \<and> length (numeric_columns self) > 0
            then in_place (create_polynomial_features self) ?b else skip"
  let ?i = "if create_interactions self \<and> length (numeric_columns self) > 1
            then in_place (create_interaction_features self) ?b else skip"
  obtain h2 r where l: "and_then ?d (and_then ?p ?i) ?h1 = (h2, r)"
    by (cases "and_then ?d (and_then ?p ?i) ?h1")
  have h': "h' = h2" and res: "res = (case r of None \<Rightarrow> Inr ?b | Some e \<Rightarrow> Inl e)"
    using assms DataFrame l by (simp_all add: engineer_transform_impl_def df_copy_def)
  have d: "only_at ?b k k'" if "?d k = (k', r')" for k k' r'
    using that in_place_only_at skip_only_at by (auto split: if_splits)
  have p: "only_at ?b k k'" if "?p k = (k', r')" for k k' r'
    using that in_place_only_at skip_only_at by (auto split: if_splits)
  have i: "only_at ?b k k'" if "?i k = (k', r')" for k k' r'
    using that in_place_only_at skip_only_at by (auto split: if_splits)
  have pi: "only_at ?b k k'" if "and_then ?p ?i k = (k', r')" for k k' r'
    by (rule and_then_only_at[OF that]) (use p i in blast)+
  have o: "only_at ?b ?h1 h2"
    by (rule and_then_only_at[OF l]) (use d pi in blast)+
  have "take (length h) h2 = h" using copy_then_only_at[where h = h and x = "DataFrame df" and h' = h2] o by simp
  moreover have "length h < length h2" using o by simp
  moreover have "\<exists>df'. h2 ! length h = DataFrame df'" using o by simp
  ultimately show ?thesis using h' res by (auto split: option.splits)
qed

lemma transform_frame:
  assumes "transform impl self X h = (h', res)"
    and "\<And>k k' r. impl self X k = (k', r) \<Longrightarrow>
           take (length k) k' = k \<and>
           (\<forall>b. r = Inr b \<longrightarrow> b = length k \<and> length k < length k' \<and> (\<exists>df'. k' ! b = DataFrame df'))"
  shows "take (length h) h' = h \<and>
         (\<forall>b. res = Inr b \<longrightarrow> b = length h \<and> length h < length h' \<and> (\<exists>df'. h' ! b = DataFrame df'))"
proof (cases "\<not> is_fitted self")
  case True
  then show ?thesis using assms(1) by (auto simp: transform_def)
next
  case False
  show ?thesis
  proof (cases "validate_input self (h ! X)")
    case (Inl e)
    then show ?thesis using assms(1) False by (auto simp: transform_def)
  next
    case (Inr df)
    then have "impl self X h = (h', res)" using assms(1) False by (simp add: transform_def)
    from assms(2)[OF this] show ?thesis .
  qed
qed


text \<open>
  C9.  \<open>transform\<close> of the imputer and of the engineer leave the caller's
  DataFrame as it was.  Whatever the call does (return or raise), every
  object that existed before it, the argument among them, is unchanged; a
  returned reference is that of a new object, a DataFrame, which began as
  the copy of the argument.
\<close>

theorem transform_leaves_input:
  assumes "X < length h"
  shows "(transform (imputer_transform_impl sk_transform) imp X h = (h', res) \<longrightarrow>
            h' ! X = h ! X \<and> take (length h) h' = h \<and>
            (\<forall>b. res = Inr b \<longrightarrow> b \<noteq> X \<and> b = length h \<and> b < length h' \<and>
                 (\<exists>df'. h' ! b = DataFrame df'))) \<and>
         (transform (engineer_transform_impl parse dow) eng X h = (h'', res') \<longrightarrow>
            h'' ! X = h ! X \<and> take (length h) h'' = h \<and>
            (\<forall>b. res' = Inr b \<longrightarrow> b \<noteq> X \<and> b = length h \<and> b < length h'' \<and>
                 (\<exists>df'. h'' ! b = DataFrame df')))"
proof (intro conjI impI)
  assume t: "transform (imputer_transform_impl sk_transform) imp X h = (h', res)"
  have f: "take (length h) h' = h \<and>
        (\<forall>b. res = Inr b \<longrightarrow> b = length h \<and> length h < length h' \<and> (\<exists>df'. h' ! b = DataFrame df'))"
    by (rule transform_frame[OF t]) (rule imputer_transform_impl_frame)
  then have "take (length h) h' ! X = h ! X" by simp
  then show "h' ! X = h ! X" using assms by simp
  show "take (length h) h' = h" using f by simp
  show "\<forall>b. res = Inr b \<longrightarrow> b \<noteq> X \<and> b = length h \<and> b < length h' \<and>
                 (\<exists>df'. h' ! b = DataFrame df')"
    using f assms by auto
next
  assume t: "transform (engineer_transform_impl parse dow) eng X h = (h'', res')"
  have f: "take (length h) h'' = h \<and>
        (\<forall>b. res' = Inr b \<longrightarrow> b = length h \<and> length h < length h'' \<and> (\<exists>df'. h'' ! b = DataFrame df'))"
    by (rule transform_frame[OF t]) (rule engineer_transform_impl_frame)
  then have "take (length h) h'' ! X = h ! X" by simp
  then show "h'' ! X = h ! X" using assms by simp
  show "take (length h) h'' = h" using f by simp
  show "\<forall>b. res' = Inr b \<longrightarrow> b \<noteq> X \<and> b = length h \<and> b < length h'' \<and>
                 (\<exists>df'. h'' ! b = DataFrame df')"
    using f assms by auto
qed


theorem transform_leaves_input_witness:
  "fst (transform
        (imputer_transform_impl
           (\<lambda>i X. Inr (map (\<lambda>(c, s). s\<lparr>cells := map (\<lambda>v. if v = NA then FloatC 0 else v) (cells s)\<rparr>) X)))
        \<lparr>feature_names = Some [''a''], is_fitted = True, strategy = ''auto'', n_neighbors = 5,
         imputers = [(''a'', \<lparr>kind = KNNImputer 5,
                             fitted_on = [(''a'', \<lparr>dtype = Float64, cells = [FloatC 1, NA]\<rparr>)]\<rparr>)],
         strategies = [(''a'', ''knn'')]\<rparr>
        0 [DataFrame [(''a'', \<lparr>dtype = Float64, cells = [FloatC 1, NA]\<rparr>)]]) ! 0
     = DataFrame [(''a'', \<lparr>dtype = Float64, cells = [FloatC 1, NA]\<rparr>)] \<and>
   transform
        (imputer_transform_impl
           (\<lambda>i X. Inr (map (\<lambda>(c, s). s\<lparr>cells := map (\<lambda>v. if v = NA then FloatC 0 else v) (cells s)\<rparr>) X)))
        \<lparr>feature_names = Some [''a''], is_fitted = True, strategy = ''auto'', n_neighbors = 5,
         imputers = [(''a'', \<lparr>kind = KNNImputer 5,
                             fitted_on = [(''a'', \<lparr>dtype = Float64, cells = [FloatC 1, NA]\<rparr>)]\<rparr>)],
         strategies = [(''a'', ''knn'')]\<rparr>
        0 [DataFrame [(''a'', \<lparr>dtype = Float64, cells = [FloatC 1, NA]\<rparr>)]]
     = ([DataFrame [(''a'', \<lparr>dtype = Float64, cells = [FloatC 1, NA]\<rparr>)],
         DataFrame [(''a'', \<lparr>dtype = Float64, cells = [FloatC 1, FloatC 0]\<rparr>)]], Inr 1) \<and>
   fst (transform (engineer_transform_impl (\<lambda>c. NA) (\<lambda>y m d. 0))
        \<lparr>feature_names = Some [''a''], is_fitted = True, create_interactions = True,
         create_polynomials = True, polynomial_degree = 2, create_date_features_flag = True,
         numeric_columns = [''a''], date_columns = []\<rparr>
        0 [DataFrame [(''a'', \<lparr>dtype = Float64, cells = [FloatC 3, NA]\<rparr>)]]) ! 0
     = DataFrame [(''a'', \<lparr>dtype = Float64, cells = [FloatC 3, NA]\<rparr>)] \<and>
   transform (engineer_transform_impl (\<lambda>c. NA) (\<lambda>y m d. 0))
        \<lparr>feature_names = Some [''a''], is_fitted = True, create_interactions = True,
         create_polynomials = True, polynomial_degree = 2, create_date_features_flag = True,
         numeric_columns = [''a''], date_columns = []\<rparr>
        0 [DataFrame [(''a'', \<lparr>dtype = Float64, cells = [FloatC 3, NA]\<rparr>)]]
     = ([DataFrame [(''a'', \<lparr>dtype = Float64, cells = [FloatC 3, NA]\<rparr>)],
         DataFrame [(''a'', \<lparr>dtype = Float64, cells = [FloatC 3, NA]\<rparr>),
                    (''a_pow_2'', \<lparr>dtype = Float64, cells = [FloatC 9, NA]\<rparr>)]], Inr 1)"
proof -
  let ?sk = "\<lambda>(i::fitted_imputer) (X::frame).
      (Inr (map (\<lambda>(c, s). s\<lparr>cells := map (\<lambda>v. if v = NA then FloatC 0 else v) (cells s)\<rparr>) X)
        :: error + series list)"
  let ?imp = "\<lparr>feature_names = Some [''a''], is_fitted = True, strategy = ''auto'', n_neighbors = 5,
         imputers = [(''a'', \<lparr>kind = KNNImputer 5,
                             fitted_on = [(''a'', \<lparr>dtype = Float64, cells = [FloatC 1, NA]\<rparr>)]\<rparr>)],
         strategies = [(''a'', ''knn'')]\<rparr>"
  let ?eng = "\<lparr>feature_names = Some [''a''], is_fitted = True, create_interactions = True,
         create_polynomials = True, polynomial_degree = 2, create_date_features_flag = True,
         numeric_columns = [''a''], date_columns = []\<rparr>"
  let ?h = "[DataFrame [(''a'', \<lparr>dtype = Float64, cells = [FloatC 1, NA]\<rparr>)]]"
  let ?k = "[DataFrame [(''a'', \<lparr>dtype = Float64, cells = [FloatC 3, NA]\<rparr>)]]"
  have x: "(0::nat) < length ?h" and y: "(0::nat) < length ?k" by simp_all
  have 1: "fst (transform (imputer_transform_impl ?sk) ?imp 0 ?h) ! 0 = ?h ! 0"
    using transform_leaves_input[OF x, of ?sk ?imp
        "fst (transform (imputer_transform_impl ?sk) ?imp 0 ?h)"
        "snd (transform (imputer_transform_impl ?sk) ?imp 0 ?h)"]
    by simp
  have 2: "fst (transform (engineer_transform_impl (\<lambda>c. NA) (\<lambda>y m d. 0)) ?eng 0 ?k) ! 0 = ?k ! 0"
    using transform_leaves_input[OF y, where parse = "\<lambda>c. NA" and dow = "\<lambda>y m d. 0"
        and eng = ?eng
        and h'' = "fst (transform (engineer_transform_impl (\<lambda>c. NA) (\<lambda>y m d. 0)) ?eng 0 ?k)"
        and res' = "snd (transform (engineer_transform_impl (\<lambda>c. NA) (\<lambda>y m d. 0)) ?eng 0 ?k)"]
    by simp
  have 3: "transform (imputer_transform_impl ?sk) ?imp 0 ?h
     = ([DataFrame [(''a'', \<lparr>dtype = Float64, cells = [FloatC 1, NA]\<rparr>)],
         DataFrame [(''a'', \<lparr>dtype = Float64, cells = [FloatC 1, FloatC 0]\<rparr>)]], Inr 1)"
    by (simp add: transform_def validate_input_def columns_def imputer_transform_impl_def
        df_copy_def in_place_def imputer_transform_column_def select_dtypes_def is_number_def
        is_float_def is_integer_def getitems_def set_columns_def setitem_def)
  have 4: "transform (engineer_transform_impl (\<lambda>c. NA) (\<lambda>y m d. 0)) ?eng 0 ?k
     = ([DataFrame [(''a'', \<lparr>dtype = Float64, cells = [FloatC 3, NA]\<rparr>)],
         DataFrame [(''a'', \<lparr>dtype = Float64, cells = [FloatC 3, NA]\<rparr>),
                    (''a_pow_2'', \<lparr>dtype = Float64, cells = [FloatC 9, NA]\<rparr>)]], Inr 1)"
    by (simp add: transform_def validate_input_def columns_def engineer_transform_impl_def
        df_copy_def in_place_def and_then_def skip_def create_date_features_def
        create_polynomial_features_def polynomial_features_column_def assign_def bind_err_def
        getitem_def series_pow_def is_number_def is_float_def is_integer_def setitem_def
        upto.simps)
  show ?thesis using 1 2 3 4 by simp
qed

subsection \<open>The denominators of the ratio features\<close>

lemma combinations2_mem:
  "(a, b) \<in> set (combinations2 xs) \<Longrightarrow> a \<in> set xs \<and> b \<in> set xs"
  by (induction xs) auto

lemma interaction_pair_other:
  assumes "interaction_pair X (c1, c2) = (X', r)"
    and "c \<noteq> product_label c1 c2" and "c \<noteq> ratio_label c1 c2"
  shows "map_of X' c = map_of X c"
proof (cases "c1 \<notin> set (columns X) \<or> c2 \<notin> set (columns X)")
  case True
  then show ?thesis using assms(1) by (auto simp: interaction_pair_def)
next
  case False
  let ?f = "assign (product_label c1 c2)
                  (\<lambda>X'. bind_err (getitem X' c1) (\<lambda>s1.
                         bind_err (getitem X' c2) (\<lambda>s2. series_mul s1 s2)))"
  let ?g = "assign (ratio_label c1 c2)
                  (\<lambda>X'. bind_err (getitem X' c1) (\<lambda>s1.
                         bind_err (ratio_denominator X' c2) (\<lambda>den. series_div s1 den)))"
  obtain X1 r1 where f: "?f X = (X1, r1)" by (cases "?f X")
  have 1: "map_of X1 c = map_of X c" using assign_other[OF f assms(2)] .
  show ?thesis
  proof (cases r1)
    case None
    then have "?g X1 = (X', r)" using assms(1) False f by (simp add: interaction_pair_def and_then_def)
    from assign_other[OF this assms(3)] 1 show ?thesis by simp
  next
    case (Some e)
    then have "X' = X1" using assms(1) False f by (simp add: interaction_pair_def and_then_def)
    then show ?thesis using 1 by simp
  qed
qed

lemma add_eps_zero:
  "float_add (to_float c) eps = FloatC 0 \<longleftrightarrow> c = FloatC (- eps)"
proof (cases c)
  case (IntC n)
  have "real_of_int n + 1 / 10 ^ 8 \<noteq> 0"
  proof
    assume "real_of_int n + 1 / 10 ^ 8 = 0"
    then have "real_of_int n * 10 ^ 8 = - 1" by (simp add: field_simps)
    then have "real_of_int (n * 10 ^ 8) = real_of_int (- 1)" by simp
    then have "n * 10 ^ 8 = - 1" by (simp only: of_int_eq_iff)
    then have "n * 100000000 = - 1" by simp
    then have "(n * 100000000) mod 100000000 = (- 1) mod 100000000" by (rule arg_cong)
    then show False by simp
  qed
  then show ?thesis using IntC by (simp add: eps_def)
next
  case (FloatC x)
  then show ?thesis by auto
qed simp_all


lemma pair_denominators_cases:
  assumes "c2 \<noteq> product_label c1 c2"
  shows "pair_denominators X (c1, c2) = [] \<or>
         (\<exists>s2. map_of X c2 = Some s2 \<and>
               pair_denominators X (c1, c2) = map (\<lambda>c. float_add (to_float c) eps) (cells s2))"
proof (cases "map_of X c2")
  case None
  then show ?thesis
    using assms
    by (auto simp: pair_denominators_def assign_def ratio_denominator_def bind_err_def
        getitem_def map_of_setitem split: sum.splits prod.splits option.splits)
next
  case (Some s2)
  then show ?thesis
    using assms
    by (auto simp: pair_denominators_def assign_def ratio_denominator_def bind_err_def
        getitem_def map_of_setitem series_add_def split: sum.splits prod.splits option.splits)
qed

text \<open>
  Where the guard does work.  When no generated label (\<open>col1_x_col2\<close>,
  \<open>col1_div_col2\<close>) is itself one of the combined columns, no column that
  is read is overwritten: the denominators of every iteration are the cells
  of the input's \<open>col2\<close> plus \<open>1e-8\<close>, and none is zero unless a value of
  the input is \<open>-1e-8\<close>.
\<close>

lemma interaction_denominators_nonzero:
  assumes "\<forall>(c1, c2) \<in> set (combinations2 (columns_to_combine self)).
             product_label c1 c2 \<notin> set (columns_to_combine self) \<and>
             ratio_label c1 c2 \<notin> set (columns_to_combine self)"
    and "\<forall>c \<in> set (columns_to_combine self). \<forall>s. map_of X c = Some s \<longrightarrow>
             FloatC (- eps) \<notin> set (cells s)"
  shows "FloatC 0 \<notin> set (interaction_denominators self X) \<and>
         (\<forall>(X', c1, c2) \<in> set (for_each_states interaction_pair
                                   (combinations2 (columns_to_combine self)) X).
            pair_denominators X' (c1, c2) = [] \<or>
            (\<exists>s2. map_of X c2 = Some s2 \<and>
                  pair_denominators X' (c1, c2) =
                    map (\<lambda>c. float_add (to_float c) eps) (cells s2)))"
proof -
  let ?cols = "columns_to_combine self"
  let ?pairs = "combinations2 ?cols"
  let ?P = "\<lambda>Y. \<forall>c \<in> set ?cols. map_of Y c = map_of X c"
  have step: "?P Y'" if "?P Y" and "pr \<in> set ?pairs" and "interaction_pair Y pr = (Y', None)"
    for Y pr Y'
  proof
    fix c assume c: "c \<in> set ?cols"
    obtain c1 c2 where pr: "pr = (c1, c2)" by (cases pr)
    have "c \<noteq> product_label c1 c2" and "c \<noteq> ratio_label c1 c2"
      using assms(1) that(2) pr c by auto
    from interaction_pair_other[OF that(3)[unfolded pr] this] that(1) c
    show "map_of Y' c = map_of X c" by simp
  qed
  have reach: "?P Y \<and> (c1, c2) \<in> set ?pairs"
    if "(Y, c1, c2) \<in> set (for_each_states interaction_pair ?pairs X)" for Y c1 c2
  proof (rule for_each_states_invariant[where P = ?P, OF _ _ that])
    show "?P X" by simp
  next
    fix Z pr Z'
    assume "?P Z" and "pr \<in> set ?pairs" and "interaction_pair Z pr = (Z', None)"
    then show "?P Z'" by (rule step)
  qed
  have fresh: "c2 \<in> set ?cols \<and> c2 \<noteq> product_label c1 c2"
    if "(c1, c2) \<in> set ?pairs" for c1 c2
  proof -
    have "product_label c1 c2 \<notin> set ?cols" using assms(1) that by blast
    moreover have "c2 \<in> set ?cols" using combinations2_mem[OF that] by simp
    ultimately show ?thesis by auto
  qed
  have dens: "pair_denominators Y (c1, c2) = [] \<or>
              (\<exists>s2. map_of X c2 = Some s2 \<and>
                    pair_denominators Y (c1, c2) =
                      map (\<lambda>c. float_add (to_float c) eps) (cells s2))"
    if "(Y, c1, c2) \<in> set (for_each_states interaction_pair ?pairs X)" for Y c1 c2
  proof -
    have p: "?P Y" and m: "(c1, c2) \<in> set ?pairs" using reach[OF that] by blast+
    have c2: "c2 \<in> set ?cols" and ne: "c2 \<noteq> product_label c1 c2" using fresh[OF m] by blast+
    have "map_of Y c2 = map_of X c2" using p c2 by blast
    with pair_denominators_cases[OF ne, of Y] show ?thesis by simp
  qed
  have nz: "FloatC 0 \<notin> set (pair_denominators Y (c1, c2))"
    if "(Y, c1, c2) \<in> set (for_each_states interaction_pair ?pairs X)" for Y c1 c2
  proof -
    have m: "(c1, c2) \<in> set ?pairs" using reach[OF that] by blast
    have c2: "c2 \<in> set ?cols" using fresh[OF m] by blast
    from dens[OF that] show ?thesis
    proof
      assume "pair_denominators Y (c1, c2) = []"
      then show ?thesis by simp
    next
      assume "\<exists>s2. map_of X c2 = Some s2 \<and>
                pair_denominators Y (c1, c2) = map (\<lambda>c. float_add (to_float c) eps) (cells s2)"
      then obtain s2 where s2: "map_of X c2 = Some s2"
        and d: "pair_denominators Y (c1, c2) = map (\<lambda>c. float_add (to_float c) eps) (cells s2)"
        by blast
      have "FloatC (- eps) \<notin> set (cells s2)" using assms(2) c2 s2 by blast
      then show ?thesis unfolding d using add_eps_zero by (metis (no_types, lifting) imageE list.set_map)
    qed
  qed
  have "FloatC 0 \<notin> set (interaction_denominators self X)"
  proof
    assume "FloatC 0 \<in> set (interaction_denominators self X)"
    then obtain Y c1 c2 where "(Y, c1, c2) \<in> set (for_each_states interaction_pair ?pairs X)"
      and "FloatC 0 \<in> set (pair_denominators Y (c1, c2))"
      unfolding interaction_denominators_def by auto
    then show False using nz by blast
  qed
  moreover have "\<forall>(X', c1, c2) \<in> set (for_each_states interaction_pair ?pairs X).
            pair_denominators X' (c1, c2) = [] \<or>
            (\<exists>s2. map_of X c2 = Some s2 \<and>
                  pair_denominators X' (c1, c2) =
                    map (\<lambda>c. float_add (to_float c) eps) (cells s2))"
    using dens by blast
  ultimately show ?thesis by blast
qed


lemma interaction_denominators_nonzero_witness:
  "FloatC 0 \<notin> set (interaction_denominators
      \<lparr>feature_names = Some [''a'', ''b''], is_fitted = True, create_interactions = True,
       create_polynomials = True, polynomial_degree = 2, create_date_features_flag = True,
       numeric_columns = [''a'', ''b''], date_columns = []\<rparr>
      [(''a'', \<lparr>dtype = Float64, cells = [FloatC 1, FloatC 2]\<rparr>),
       (''b'', \<lparr>dtype = Int64, cells = [IntC 0, IntC (- 3)]\<rparr>)])"
proof -
  let ?eng = "\<lparr>feature_names = Some [''a'', ''b''], is_fitted = True, create_interactions = True,
       create_polynomials = True, polynomial_degree = 2, create_date_features_flag = True,
       numeric_columns = [''a'', ''b''], date_columns = []\<rparr>"
  let ?X = "[(''a'', \<lparr>dtype = Float64, cells = [FloatC 1, FloatC 2]\<rparr>),
            (''b'', \<lparr>dtype = Int64, cells = [IntC 0, IntC (- 3)]\<rparr>)]"
  have 1: "\<forall>(c1, c2) \<in> set (combinations2 (columns_to_combine ?eng)).
             product_label c1 c2 \<notin> set (columns_to_combine ?eng) \<and>
             ratio_label c1 c2 \<notin> set (columns_to_combine ?eng)"
    by (simp add: columns_to_combine_def product_label_def ratio_label_def)
  have 2: "\<forall>c \<in> set (columns_to_combine ?eng). \<forall>s. map_of ?X c = Some s \<longrightarrow>
             FloatC (- eps) \<notin> set (cells s)"
    by (auto simp: columns_to_combine_def eps_def)
  from interaction_denominators_nonzero[OF 1 2] show ?thesis by blast
qed

text \<open>
  C10.  The claim is what the comment on the ratio promises (\<open>avoid division
  by zero\<close>), and the code breaks it when a generated label is also a
  numeric column.  The engineer is fitted on the float columns \<open>a = [2]\<close>,
  \<open>b = [-5e-9]\<close> and \<open>a_x_b = [0]\<close>, none of which holds \<open>-1e-8\<close>.  The
  pair \<open>(a, b)\<close> assigns the product \<open>-1e-8\<close> to \<open>a_x_b\<close>, over the input
  column; the pair \<open>(a, a_x_b)\<close> then divides by \<open>-1e-8 + 1e-8 = 0\<close>, and
  the ratio \<open>a_div_a_x_b\<close> is infinite.
\<close>

theorem zero_denominator_after_overwrite:
  "engineer_fit (\<lambda>cs. False) (new_AdvancedFeatureEngineer True True 2 True)
     (DataFrame [(''a'', \<lparr>dtype = Float64, cells = [FloatC 2]\<rparr>),
                 (''b'', \<lparr>dtype = Float64, cells = [FloatC (- 5 / 10 ^ 9)]\<rparr>),
                 (''a_x_b'', \<lparr>dtype = Float64, cells = [FloatC 0]\<rparr>)])
   = Inr \<lparr>feature_names = Some [''a'', ''b'', ''a_x_b''], is_fitted = True,
          create_interactions = True, create_polynomials = True, polynomial_degree = 2,
          create_date_features_flag = True,
          numeric_columns = [''a'', ''b'', ''a_x_b''], date_columns = []\<rparr> \<and>
   FloatC (- eps) \<notin> set [FloatC 2, FloatC (- 5 / 10 ^ 9), FloatC 0] \<and>
   FloatC 0 \<in> set (interaction_denominators
      \<lparr>feature_names = Some [''a'', ''b'', ''a_x_b''], is_fitted = True,
       create_interactions = True, create_polynomials = True, polynomial_degree = 2,
       create_date_features_flag = True,
       numeric_columns = [''a'', ''b'', ''a_x_b''], date_columns = []\<rparr>
      [(''a'', \<lparr>dtype = Float64, cells = [FloatC 2]\<rparr>),
       (''b'', \<lparr>dtype = Float64, cells = [FloatC (- 5 / 10 ^ 9)]\<rparr>),
       (''a_x_b'', \<lparr>dtype = Float64, cells = [FloatC 0]\<rparr>)]) \<and>
   map_of (fst (create_interaction_features
      \<lparr>feature_names = Some [''a'', ''b'', ''a_x_b''], is_fitted = True,
       create_interactions = True, create_polynomials = True, polynomial_degree = 2,
       create_date_features_flag = True,
       numeric_columns = [''a'', ''b'', ''a_x_b''], date_columns = []\<rparr>
      [(''a'', \<lparr>dtype = Float64, cells = [FloatC 2]\<rparr>),
       (''b'', \<lparr>dtype = Float64, cells = [FloatC (- 5 / 10 ^ 9)]\<rparr>),
       (''a_x_b'', \<lparr>dtype = Float64, cells = [FloatC 0]\<rparr>)])) ''a_div_a_x_b''
     = Some \<lparr>dtype = Float64, cells = [PosInf]\<rparr>"
  by (simp add: interaction_denominators_def create_interaction_features_def columns_to_combine_def pair_denominators_def
      interaction_pair_def and_then_def assign_def bind_err_def getitem_def setitem_def
      ratio_denominator_def product_label_def ratio_label_def series_mul_def series_add_def
      series_div_def is_number_def is_float_def is_integer_def columns_def eps_def
      signed_inf_def
      engineer_fit_def fit_def validate_input_def
      new_AdvancedFeatureEngineer_def select_dtypes_def)

end
